theory Spec2Isabelle
  imports Main "HOL-Library.Word"
begin

section \<open>Constants of the module\<close>

definition GMAIL_IMAP_SERVER :: string where
  "GMAIL_IMAP_SERVER = ''imap.gmail.com''"

definition UNREAD_EMAIL_CRITERIA :: string where
  "UNREAD_EMAIL_CRITERIA = ''UNSEEN''"

text \<open>The arguments of the calls of \<^verbatim>\<open>fetch\<close> and \<^verbatim>\<open>store\<close>: the message
  parts \<^verbatim>\<open>(RFC822)\<close>, the command \<^verbatim>\<open>+FLAGS\<close> and the flag
  \<^verbatim>\<open>\Seen\<close> (a backslash, then \<^verbatim>\<open>Seen\<close>).\<close>

definition FETCH_PARTS :: string where
  "FETCH_PARTS = ''(RFC822)''"

definition STORE_COMMAND :: string where
  "STORE_COMMAND = ''+FLAGS''"

definition SEEN_FLAG :: string where
  "SEEN_FLAG = CHR 0x5C # ''Seen''"

definition MAX_RETRIES :: nat where
  "MAX_RETRIES = 3"

definition RETRY_DELAY :: nat where
  "RETRY_DELAY = 5"

section \<open>Data model\<close>

text \<open>
  Exceptions the library calls can raise. In \<^verbatim>\<open>imaplib\<close> the class
  \<^verbatim>\<open>IMAP4.abort\<close> is a subclass of \<^verbatim>\<open>IMAP4.error\<close>, so a handler for
  \<^verbatim>\<open>IMAP4.error\<close> takes both; every other exception (\<^verbatim>\<open>OSError\<close>,
  \<^verbatim>\<open>TypeError\<close>, ...) is \<open>Other_exception\<close>. All three are subclasses of
  \<^verbatim>\<open>Exception\<close>.
\<close>

datatype exn = IMAP4_error string | IMAP4_abort string | Other_exception string

fun is_IMAP4_error :: "exn \<Rightarrow> bool" where
  "is_IMAP4_error (IMAP4_error _) = True"
| "is_IMAP4_error (IMAP4_abort _) = True"
| "is_IMAP4_error (Other_exception _) = False"

type_synonym bytes = "8 word list"
type_synonym email_id = string
type_synonym handle = nat

text \<open>The calls of \<^verbatim>\<open>logging.info\<close> and \<^verbatim>\<open>logging.error\<close>, one constructor
  for each format string of the source, with the values it interpolates.\<close>

text \<open>
  The value of \<^verbatim>\<open>msg['From']\<close> under the default policy of
  \<^verbatim>\<open>email.message_from_bytes\<close>: \<^verbatim>\<open>None\<close> when the header is missing, a
  \<^verbatim>\<open>str\<close> when its raw value is ASCII, and an \<^verbatim>\<open>email.header.Header\<close>
  object when the raw value holds a byte outside ASCII.
\<close>

datatype header_value = No_header | Str_header string | Header_object string

datatype level = INFO | ERROR

datatype msg =
    Connected_to_Gmail string
  | Failed_to_connect nat nat exn
  | Retrying_connection nat
  | Failed_to_connect_after nat
  | Created_directory string
  | Error_creating_directory string exn
  | Connection_not_established
  | Error_while_downloading nat nat exn
  | Retrying_download nat
  | Failed_to_download_after nat
  | Failed_to_fetch email_id
  | Not_in_senders header_value
  | Error_processing email_id exn
  | Downloaded string string
  | Error_saving string exn
  | Logged_out string

text \<open>The commands sent over a connection, in the order the program sends them.\<close>

datatype imap_cmd =
    Select handle string
  | Search handle string
  | Fetch handle email_id string
  | Store handle email_id string string
  | Logout handle

text \<open>
  Everything outside the process that the program reads or changes: the calendar date,
  the connections opened so far, the pauses of \<^verbatim>\<open>time.sleep\<close>, the log, the
  directories for which \<^verbatim>\<open>os.path.isdir\<close> holds, the contents of the files
  (keyed by the file, that is by the resolved path: several path strings can name one
  file), the commands sent to the server, and the messages that carry the flag
  \<^verbatim>\<open>\Seen\<close> on the server. A message gets that flag in two ways: by a store of
  \<^verbatim>\<open>+FLAGS \Seen\<close> that succeeds, and by the server itself when it delivers the
  message for a fetch of \<^verbatim>\<open>RFC822\<close> on a mailbox selected for reading and writing
  (RFC 3501; \<^verbatim>\<open>select\<close> is called without \<^verbatim>\<open>readonly\<close>).
\<close>

record world =
  today :: string
  conn_attempts :: nat
  sleeps :: "nat list"
  log :: "(level \<times> msg) list"
  dirs :: "string set"
  files :: "string \<rightharpoonup> bytes"
  imap_cmds :: "imap_cmd list"
  seen :: "(handle \<times> email_id) set"

text \<open>A parsed message (\<^verbatim>\<open>email.message.Message\<close>): the headers the program
  reads, and either a decoded payload or the list of sub-parts. \<open>hdr_From\<close> is the raw
  value of the From header, byte for character.\<close>

record headers =
  hdr_From :: "string option"
  maintype :: string
  content_disposition :: "string option"
  filename :: "string option"

datatype part = Leaf headers bytes | Multi headers "part list"

datatype conn_reply = Constructor_raises exn | Login_raises exn | Login_ok

datatype search_reply = Search_raises exn | Search_ids "email_id list"

text \<open>The replies to a fetch: the call raises; the result is not \<^verbatim>\<open>OK\<close>; the
  result is \<^verbatim>\<open>OK\<close> but holds no message, so that taking the bytes out of it, or
  parsing them, raises; or the server delivers the message.\<close>

datatype fetch_reply =
    Fetch_raises exn
  | Fetch_not_OK
  | Fetch_unparsable exn
  | Fetch_message part

datatype store_reply = Store_raises exn | Store_NO | Store_OK

datatype write_reply = Open_raises exn | Write_raises exn bytes | Write_ok

text \<open>
  The replies of the mail server and of the operating system. They are parameters of
  the model: each may depend on the whole state of the world at the moment of the call.
  \<open>os_realpath\<close> is the file that a path names: the operating system resolves
  \<^verbatim>\<open>.\<close>, \<^verbatim>\<open>..\<close>, doubled separators and links, so different strings can
  name the same file.
\<close>

record env =
  imap_connect :: "world \<Rightarrow> string \<Rightarrow> string \<Rightarrow> string \<Rightarrow> conn_reply"
  imap_select :: "world \<Rightarrow> handle \<Rightarrow> exn option"
  imap_search :: "world \<Rightarrow> handle \<Rightarrow> search_reply"
  imap_fetch :: "world \<Rightarrow> handle \<Rightarrow> email_id \<Rightarrow> fetch_reply"
  imap_store :: "world \<Rightarrow> handle \<Rightarrow> email_id \<Rightarrow> store_reply"
  imap_logout :: "world \<Rightarrow> handle \<Rightarrow> exn option"
  os_makedirs :: "world \<Rightarrow> string \<Rightarrow> exn option"
  file_write :: "world \<Rightarrow> string \<Rightarrow> write_reply"
  os_realpath :: "string \<Rightarrow> string"

text \<open>The fields of \<^verbatim>\<open>EmailDownloader\<close>.\<close>

record downloader =
  email_user :: string
  email_pass :: string
  base_dir :: string
  senders_dict :: "string \<rightharpoonup> string"
  mail :: "handle option"
  attachments_dir :: "string option"

definition init :: "string \<Rightarrow> string \<Rightarrow> string \<Rightarrow> (string \<rightharpoonup> string) \<Rightarrow> downloader" where
  "init u p b s =
     \<lparr>email_user = u, email_pass = p, base_dir = b, senders_dict = s,
      mail = None, attachments_dir = None\<rparr>"

definition logging :: "level \<Rightarrow> msg \<Rightarrow> world \<Rightarrow> world" where
  "logging l m w = w\<lparr>log := log w @ [(l, m)]\<rparr>"

definition sleep :: "nat \<Rightarrow> world \<Rightarrow> world" where
  "sleep n w = w\<lparr>sleeps := sleeps w @ [n]\<rparr>"

definition send :: "imap_cmd \<Rightarrow> world \<Rightarrow> world" where
  "send c w = w\<lparr>imap_cmds := imap_cmds w @ [c]\<rparr>"

section \<open>connect\<close>

text \<open>
  The body of the \<^verbatim>\<open>try\<close> in \<^verbatim>\<open>connect\<close>: the constructor
  \<^verbatim>\<open>IMAP4_SSL\<close>, whose result is assigned to \<^verbatim>\<open>self.mail\<close> before
  \<^verbatim>\<open>login\<close> is called. The handle of a connection is its number.
\<close>

definition connect_try :: "env \<Rightarrow> downloader \<Rightarrow> world \<Rightarrow> exn option \<times> downloader \<times> world" where
  "connect_try e d w =
     (let h = conn_attempts w;
          w1 = w\<lparr>conn_attempts := Suc h\<rparr>
      in case imap_connect e w GMAIL_IMAP_SERVER (email_user d) (email_pass d) of
           Constructor_raises x \<Rightarrow> (Some x, d, w1)
         | Login_raises x \<Rightarrow> (Some x, d\<lparr>mail := Some h\<rparr>, w1)
         | Login_ok \<Rightarrow>
             (None, d\<lparr>mail := Some h\<rparr>, logging INFO (Connected_to_Gmail (email_user d)) w1))"

function connect_loop :: "env \<Rightarrow> nat \<Rightarrow> downloader \<Rightarrow> world \<Rightarrow> exn option \<times> downloader \<times> world" where
  "connect_loop e retries d w =
     (if retries < MAX_RETRIES then
        (case connect_try e d w of
           (None, d1, w1) \<Rightarrow> (None, d1, w1)
         | (Some x, d1, w1) \<Rightarrow>
             if is_IMAP4_error x then
               (let retries1 = retries + 1;
                    w2 = logging ERROR (Failed_to_connect retries1 MAX_RETRIES x) w1
                in connect_loop e retries1 d1
                     (if retries1 < MAX_RETRIES
                      then sleep RETRY_DELAY (logging INFO (Retrying_connection RETRY_DELAY) w2)
                      else w2))
             else (Some x, d1, w1))
      else (None, d\<lparr>mail := None\<rparr>, logging ERROR (Failed_to_connect_after MAX_RETRIES) w))"
  by pat_completeness auto
termination
  by (relation "measure (\<lambda>(e, retries, d, w). MAX_RETRIES - retries)") auto

declare connect_loop.simps [simp del]

definition connect :: "env \<Rightarrow> downloader \<Rightarrow> world \<Rightarrow> exn option \<times> downloader \<times> world" where
  "connect e d w = connect_loop e 0 d w"

section \<open>create_attachments_directory\<close>

text \<open>\<^verbatim>\<open>os.path.join\<close> of two components, as \<^verbatim>\<open>posixpath\<close> defines it: a
  second component that starts with a separator replaces the first.\<close>

definition os_path_join :: "string \<Rightarrow> string \<Rightarrow> string" where
  "os_path_join a b =
     (if b \<noteq> [] \<and> hd b = CHR ''/'' then b
      else if a = [] \<or> last a = CHR ''/'' then a @ b
      else a @ ''/'' @ b)"

text \<open>The leading directories of a path, which \<^verbatim>\<open>os.makedirs\<close> creates with it.\<close>

definition ancestor_dirs :: "string \<Rightarrow> string set" where
  "ancestor_dirs p = set (map (\<lambda>i. take i p) (filter (\<lambda>i. p ! i = CHR ''/'') [1..<length p]))"

definition create_attachments_directory :: "env \<Rightarrow> downloader \<Rightarrow> world \<Rightarrow> downloader \<times> world" where
  "create_attachments_directory e d w =
     (let today_date = today w;
          p = os_path_join (base_dir d) today_date;
          d1 = d\<lparr>attachments_dir := Some p\<rparr>
      in if p \<notin> dirs w then
           (case os_makedirs e w p of
              None \<Rightarrow>
                (d1, logging INFO (Created_directory p)
                       (w\<lparr>dirs := insert p (ancestor_dirs p \<union> dirs w)\<rparr>))
            | Some x \<Rightarrow>
                (d1\<lparr>attachments_dir := None\<rparr>, logging ERROR (Error_creating_directory p x) w))
         else (d1, w))"

section \<open>Attachments\<close>

fun part_headers :: "part \<Rightarrow> headers" where
  "part_headers (Leaf h b) = h"
| "part_headers (Multi h ps) = h"

fun is_multipart :: "part \<Rightarrow> bool" where
  "is_multipart (Leaf h b) = False"
| "is_multipart (Multi h ps) = True"

text \<open>\<^verbatim>\<open>get_payload(decode=True)\<close>: the decoded bytes of a part that is not a
  container, \<^verbatim>\<open>None\<close> for a container.\<close>

fun get_payload_decode :: "part \<Rightarrow> bytes option" where
  "get_payload_decode (Leaf h b) = Some b"
| "get_payload_decode (Multi h ps) = None"

fun walk :: "part \<Rightarrow> part list" where
  "walk (Leaf h b) = [Leaf h b]"
| "walk (Multi h ps) = Multi h ps # concat (map walk ps)"

definition is_attachment :: "part \<Rightarrow> bool" where
  "is_attachment p =
     (maintype (part_headers p) \<noteq> ''multipart'' \<and> content_disposition (part_headers p) \<noteq> None)"

text \<open>
  \<^verbatim>\<open>save_attachment\<close>. The path is joined outside the \<^verbatim>\<open>try\<close>, so with no
  directory (\<^verbatim>\<open>None\<close>) the \<^verbatim>\<open>TypeError\<close> of \<^verbatim>\<open>os.path.join\<close> leaves
  the method. Inside the \<^verbatim>\<open>try\<close> the file is opened for writing (created or
  truncated) before the payload is written; writing \<^verbatim>\<open>None\<close> raises
  \<^verbatim>\<open>TypeError\<close>. Every exception of the \<^verbatim>\<open>try\<close> is logged. The write
  goes to the file that the path names.
\<close>

definition save_attachment :: "env \<Rightarrow> downloader \<Rightarrow> part \<Rightarrow> string \<Rightarrow> world \<Rightarrow> exn option \<times> world" where
  "save_attachment e d p sender_email w =
     (case filename (part_headers p) of
        None \<Rightarrow> (None, w)
      | Some fname \<Rightarrow>
          if fname = [] then (None, w)
          else
            (case attachments_dir d of
               None \<Rightarrow> (Some (Other_exception ''TypeError''), w)
             | Some dir \<Rightarrow>
                 (let filepath = os_path_join dir fname in
                  case file_write e w filepath of
                    Open_raises x \<Rightarrow> (None, logging ERROR (Error_saving fname x) w)
                  | Write_raises x written \<Rightarrow>
                      (case get_payload_decode p of
                         None \<Rightarrow>
                           (None, logging ERROR (Error_saving fname (Other_exception ''TypeError''))
                                    (w\<lparr>files := (files w)(os_realpath e filepath \<mapsto> [])\<rparr>))
                       | Some b \<Rightarrow>
                           (None, logging ERROR (Error_saving fname x)
                                    (w\<lparr>files := (files w)(os_realpath e filepath \<mapsto> written)\<rparr>)))
                  | Write_ok \<Rightarrow>
                      (case get_payload_decode p of
                         None \<Rightarrow>
                           (None, logging ERROR (Error_saving fname (Other_exception ''TypeError''))
                                    (w\<lparr>files := (files w)(os_realpath e filepath \<mapsto> [])\<rparr>))
                       | Some b \<Rightarrow>
                           (None, logging INFO (Downloaded fname sender_email)
                                    (w\<lparr>files := (files w)(os_realpath e filepath \<mapsto> b)\<rparr>))))))"

text \<open>The loop of \<^verbatim>\<open>save_attachments\<close> over the parts that \<^verbatim>\<open>walk\<close> yields.\<close>

fun save_parts :: "env \<Rightarrow> downloader \<Rightarrow> string \<Rightarrow> part list \<Rightarrow> world \<Rightarrow> exn option \<times> world" where
  "save_parts e d sender_email [] w = (None, w)"
| "save_parts e d sender_email (p # ps) w =
     (if is_attachment p then
        (case save_attachment e d p sender_email w of
           (None, w1) \<Rightarrow> save_parts e d sender_email ps w1
         | (Some x, w1) \<Rightarrow> (Some x, w1))
      else save_parts e d sender_email ps w)"

definition save_attachments :: "env \<Rightarrow> downloader \<Rightarrow> part \<Rightarrow> string \<Rightarrow> world \<Rightarrow> exn option \<times> world" where
  "save_attachments e d m sender_email w =
     (if is_multipart m then save_parts e d sender_email (walk m) w else (None, w))"

section \<open>process_email\<close>

text \<open>A character of ASCII: the top bit of its byte is not set.\<close>

definition is_ascii :: "string \<Rightarrow> bool" where
  "is_ascii s = list_all (\<lambda>c. \<not> digit7 c) s"

text \<open>\<^verbatim>\<open>msg['From']\<close>.\<close>

definition msg_From :: "part \<Rightarrow> header_value" where
  "msg_From m =
     (case hdr_From (part_headers m) of
        None \<Rightarrow> No_header
      | Some v \<Rightarrow> if is_ascii v then Str_header v else Header_object v)"

text \<open>\<^verbatim>\<open>sender_email in self.senders_dict\<close>: a string is looked up, as it stands,
  among the keys; \<^verbatim>\<open>None\<close> is no key; a \<^verbatim>\<open>Header\<close> object cannot be
  hashed, and the test raises \<^verbatim>\<open>TypeError\<close>.\<close>

definition in_senders :: "header_value \<Rightarrow> (string \<rightharpoonup> string) \<Rightarrow> exn + bool" where
  "in_senders sender_email sd =
     (case sender_email of
        No_header \<Rightarrow> Inr False
      | Str_header s \<Rightarrow> Inr (sd s \<noteq> None)
      | Header_object v \<Rightarrow> Inl (Other_exception ''TypeError''))"

text \<open>The server flags a message that it delivers for the fetch.\<close>

definition delivered :: "handle \<Rightarrow> email_id \<Rightarrow> world \<Rightarrow> world" where
  "delivered h email_id w = w\<lparr>seen := insert (h, email_id) (seen w)\<rparr>"

text \<open>The body of the \<^verbatim>\<open>try\<close> of \<^verbatim>\<open>process_email\<close>. With no connection
  (\<^verbatim>\<open>self.mail\<close> is \<^verbatim>\<open>None\<close>) the call of \<^verbatim>\<open>fetch\<close> raises
  \<^verbatim>\<open>AttributeError\<close>. The result of \<^verbatim>\<open>store\<close> is not looked at. In the
  branch of the allow-listed senders \<open>sender_email\<close> is a string.\<close>

definition process_email_try :: "env \<Rightarrow> downloader \<Rightarrow> email_id \<Rightarrow> world \<Rightarrow> exn option \<times> world" where
  "process_email_try e d email_id w =
     (case mail d of
        None \<Rightarrow> (Some (Other_exception ''AttributeError''), w)
      | Some h \<Rightarrow>
          (let w1 = send (Fetch h email_id FETCH_PARTS) w in
           case imap_fetch e w h email_id of
             Fetch_raises x \<Rightarrow> (Some x, w1)
           | Fetch_not_OK \<Rightarrow> (None, logging ERROR (Failed_to_fetch email_id) w1)
           | Fetch_unparsable x \<Rightarrow> (Some x, w1)
           | Fetch_message m \<Rightarrow>
               (let w1d = delivered h email_id w1;
                    sender_email = msg_From m
                in case in_senders sender_email (senders_dict d) of
                     Inl x \<Rightarrow> (Some x, w1d)
                   | Inr True \<Rightarrow>
                       (case save_attachments e d m
                               (case sender_email of Str_header s \<Rightarrow> s | _ \<Rightarrow> []) w1d of
                          (Some x, w2) \<Rightarrow> (Some x, w2)
                        | (None, w2) \<Rightarrow>
                            (let w3 = send (Store h email_id STORE_COMMAND SEEN_FLAG) w2 in
                             case imap_store e w2 h email_id of
                               Store_raises x \<Rightarrow> (Some x, w3)
                             | Store_NO \<Rightarrow> (None, w3)
                             | Store_OK \<Rightarrow>
                                 (None, w3\<lparr>seen := insert (h, email_id) (seen w3)\<rparr>)))
                   | Inr False \<Rightarrow> (None, logging INFO (Not_in_senders sender_email) w1d))))"

text \<open>\<^verbatim>\<open>except Exception\<close>: whatever the body raises is logged, and the method
  returns.\<close>

definition process_email :: "env \<Rightarrow> downloader \<Rightarrow> email_id \<Rightarrow> world \<Rightarrow> world" where
  "process_email e d email_id w =
     (case process_email_try e d email_id w of
        (None, w1) \<Rightarrow> w1
      | (Some x, w1) \<Rightarrow> logging ERROR (Error_processing email_id x) w1)"

section \<open>download_attachments\<close>

fun process_all :: "env \<Rightarrow> downloader \<Rightarrow> email_id list \<Rightarrow> world \<Rightarrow> world" where
  "process_all e d [] w = w"
| "process_all e d (email_id # email_ids) w =
     process_all e d email_ids (process_email e d email_id w)"

text \<open>The body of the \<^verbatim>\<open>try\<close>: select, search (with the split of its data into
  identifiers), and the loop over the identifiers.\<close>

definition download_try :: "env \<Rightarrow> downloader \<Rightarrow> handle \<Rightarrow> world \<Rightarrow> exn option \<times> world" where
  "download_try e d h w =
     (let w1 = send (Select h ''inbox'') w in
      case imap_select e w h of
        Some x \<Rightarrow> (Some x, w1)
      | None \<Rightarrow>
          (let w2 = send (Search h UNREAD_EMAIL_CRITERIA) w1 in
           case imap_search e w1 h of
             Search_raises x \<Rightarrow> (Some x, w2)
           | Search_ids email_ids \<Rightarrow> (None, process_all e d email_ids w2)))"

function download_loop :: "env \<Rightarrow> nat \<Rightarrow> downloader \<Rightarrow> handle \<Rightarrow> world \<Rightarrow> exn option \<times> world" where
  "download_loop e retries d h w =
     (if retries < MAX_RETRIES then
        (case download_try e d h w of
           (None, w1) \<Rightarrow> (None, w1)
         | (Some x, w1) \<Rightarrow>
             if is_IMAP4_error x then
               (let retries1 = retries + 1;
                    w2 = logging ERROR (Error_while_downloading retries1 MAX_RETRIES x) w1
                in download_loop e retries1 d h
                     (if retries1 < MAX_RETRIES
                      then sleep RETRY_DELAY (logging INFO (Retrying_download RETRY_DELAY) w2)
                      else w2))
             else (Some x, w1))
      else (None, logging ERROR (Failed_to_download_after MAX_RETRIES) w))"
  by pat_completeness auto
termination
  by (relation "measure (\<lambda>(e, retries, d, h, w). MAX_RETRIES - retries)") auto

declare download_loop.simps [simp del]

definition download_attachments :: "env \<Rightarrow> downloader \<Rightarrow> world \<Rightarrow> exn option \<times> world" where
  "download_attachments e d w =
     (case mail d of
        None \<Rightarrow> (None, logging ERROR Connection_not_established w)
      | Some h \<Rightarrow> download_loop e 0 d h w)"

section \<open>logout\<close>

definition logout :: "env \<Rightarrow> downloader \<Rightarrow> world \<Rightarrow> exn option \<times> world" where
  "logout e d w =
     (case mail d of
        None \<Rightarrow> (None, w)
      | Some h \<Rightarrow>
          (let w1 = send (Logout h) w in
           case imap_logout e w h of
             Some x \<Rightarrow> (Some x, w1)
           | None \<Rightarrow> (None, logging INFO (Logged_out (email_user d)) w1)))"

section \<open>main\<close>

record account =
  acc_email_user :: string
  acc_email_pass :: string
  acc_base_dir :: string
  acc_senders_dict :: "string \<rightharpoonup> string"

definition email_accounts :: "account list" where
  "email_accounts =
     [\<lparr>acc_email_user = ''example@gmai.com'', acc_email_pass = ''password'',
       acc_base_dir = ''Your Base Directory'',
       acc_senders_dict = [''example1@example.com'' \<mapsto> ''Example Sender 1'',
                           ''example2@example.com'' \<mapsto> ''Example Sender 2'']\<rparr>,
      \<lparr>acc_email_user = ''example2@gmail.com'', acc_email_pass = ''password'',
       acc_base_dir = ''BASE_DIR_2'',
       acc_senders_dict = [''example3@example.com'' \<mapsto> ''Example Sender 3'',
                           ''example4@example.com'' \<mapsto> ''Example Sender 4'']\<rparr>]"

text \<open>Truth value of \<^verbatim>\<open>downloader.attachments_dir\<close>: neither \<^verbatim>\<open>None\<close> nor
  the empty string.\<close>

definition truthy :: "string option \<Rightarrow> bool" where
  "truthy s = (case s of None \<Rightarrow> False | Some p \<Rightarrow> p \<noteq> [])"

text \<open>The body of the loop of \<^verbatim>\<open>main\<close> for one account. Nothing is caught
  here: an exception of a call ends the run of the account at that call.\<close>

definition run_account :: "env \<Rightarrow> account \<Rightarrow> world \<Rightarrow> exn option \<times> world" where
  "run_account e a w =
     (let d0 = init (acc_email_user a) (acc_email_pass a) (acc_base_dir a) (acc_senders_dict a) in
      case connect e d0 w of
        (Some x, d1, w1) \<Rightarrow> (Some x, w1)
      | (None, d1, w1) \<Rightarrow>
          (case create_attachments_directory e d1 w1 of
             (d2, w2) \<Rightarrow>
               (case (if truthy (attachments_dir d2) then download_attachments e d2 w2
                      else (None, w2)) of
                  (Some x, w3) \<Rightarrow> (Some x, w3)
                | (None, w3) \<Rightarrow> logout e d2 w3)))"

text \<open>The loop of \<^verbatim>\<open>main\<close>: an exception that leaves the run of one account
  leaves the loop, and \<^verbatim>\<open>main\<close>, too.\<close>

fun main_loop :: "env \<Rightarrow> account list \<Rightarrow> world \<Rightarrow> exn option \<times> world" where
  "main_loop e [] w = (None, w)"
| "main_loop e (a # as) w =
     (case run_account e a w of
        (Some x, w1) \<Rightarrow> (Some x, w1)
      | (None, w1) \<Rightarrow> main_loop e as w1)"

definition main :: "env \<Rightarrow> world \<Rightarrow> exn option \<times> world" where
  "main e w = main_loop e email_accounts w"

section \<open>Predicates of the statements\<close>

text \<open>An attempt fails in the way \<open>connect\<close> retries: the constructor or the
  login raises \<^verbatim>\<open>imaplib.IMAP4.error\<close> (or its subclass \<^verbatim>\<open>abort\<close>).\<close>

definition fails_transiently :: "conn_reply \<Rightarrow> bool" where
  "fails_transiently r =
     (case r of
        Constructor_raises x \<Rightarrow> is_IMAP4_error x
      | Login_raises x \<Rightarrow> is_IMAP4_error x
      | Login_ok \<Rightarrow> False)"

text \<open>The commands that fetch a message.\<close>

fun is_fetch :: "imap_cmd \<Rightarrow> bool" where
  "is_fetch (Fetch h i ps) = True"
| "is_fetch (Select h b) = False"
| "is_fetch (Search h c) = False"
| "is_fetch (Store h i c f) = False"
| "is_fetch (Logout h) = False"


text \<open>No connection attempt raises anything but an IMAP4 error.\<close>

definition connect_raises_imap_only :: "env \<Rightarrow> bool" where
  "connect_raises_imap_only e =
     (\<forall>w s u p. case imap_connect e w s u p of
                  Constructor_raises x \<Rightarrow> is_IMAP4_error x
                | Login_raises x \<Rightarrow> is_IMAP4_error x
                | Login_ok \<Rightarrow> True)"

text \<open>No call outside the handlers of the methods raises: connect, select and search
  raise IMAP4 errors only, and logout raises nothing. Fetch, store, makedirs and the
  writes may fail in any way.\<close>

definition no_escaping_exception :: "env \<Rightarrow> bool" where
  "no_escaping_exception e =
     (connect_raises_imap_only e
      \<and> (\<forall>w h x. imap_select e w h = Some x \<longrightarrow> is_IMAP4_error x)
      \<and> (\<forall>w h x. imap_search e w h = Search_raises x \<longrightarrow> is_IMAP4_error x)
      \<and> (\<forall>w h. imap_logout e w h = None))"

section \<open>Concrete inputs\<close>

text \<open>A world with nothing in it, replies that never fail, and a downloader for one
  account, used to run the definitions on concrete inputs. The paths of these inputs
  have no \<^verbatim>\<open>.\<close>, \<^verbatim>\<open>..\<close> or doubled separator, and each names a file of its
  own.\<close>

definition w0 :: world where
  "w0 = \<lparr>today = ''2024-01-01'', conn_attempts = 0, sleeps = [], log = [], dirs = {},
         files = Map.empty, imap_cmds = [], seen = {}\<rparr>"

text \<open>The same world with the directory of the day in place.\<close>

definition w_dir :: world where
  "w_dir = w0\<lparr>dirs := {''base/2024-01-01''}\<rparr>"

definition env_ok :: env where
  "env_ok =
     \<lparr>imap_connect = (\<lambda>w s u p. Login_ok),
      imap_select = (\<lambda>w h. None),
      imap_search = (\<lambda>w h. Search_ids []),
      imap_fetch = (\<lambda>w h i. Fetch_not_OK),
      imap_store = (\<lambda>w h i. Store_OK),
      imap_logout = (\<lambda>w h. None),
      os_makedirs = (\<lambda>w p. None),
      file_write = (\<lambda>w p. Write_ok),
      os_realpath = (\<lambda>p. p)\<rparr>"

definition d0 :: downloader where
  "d0 = init ''u@x.com'' ''pw'' ''base'' [''a@x.com'' \<mapsto> ''Alice'']"

text \<open>The downloader after a successful connect and directory resolution.\<close>

definition d_ready :: downloader where
  "d_ready = d0\<lparr>mail := Some 0, attachments_dir := Some ''base/2024-01-01''\<rparr>"

text \<open>The headers of an attached file, and of the root of a multipart message of a sender.\<close>

definition hdr_pdf :: headers where
  "hdr_pdf = \<lparr>hdr_From = None, maintype = ''application'',
              content_disposition = Some ''attachment'', filename = Some ''a.pdf''\<rparr>"

definition hdr_root :: "string \<Rightarrow> headers" where
  "hdr_root sender =
     \<lparr>hdr_From = Some sender, maintype = ''multipart'', content_disposition = None,
      filename = None\<rparr>"

text \<open>Replies that deliver the message \<open>m\<close> on every fetch.\<close>

definition env_fetch :: "part \<Rightarrow> env" where
  "env_fetch m = env_ok\<lparr>imap_fetch := (\<lambda>w h i. Fetch_message m)\<rparr>"

text \<open>Replies with which the logout raises.\<close>

definition env_logout_raises :: env where
  "env_logout_raises = env_ok\<lparr>imap_logout := (\<lambda>w h. Some (IMAP4_abort ''socket error''))\<rparr>"

text \<open>Replies with which the first \<open>n\<close> connection attempts fail with an IMAP4 error, and
  replies with which every attempt does.\<close>

definition env_flaky :: "nat \<Rightarrow> env" where
  "env_flaky n =
     env_ok\<lparr>imap_connect :=
       (\<lambda>w s u p. if conn_attempts w < n then Login_raises (IMAP4_error ''try again'') else Login_ok)\<rparr>"

definition env_down :: env where
  "env_down = env_ok\<lparr>imap_connect := (\<lambda>w s u p. Login_raises (IMAP4_error ''no''))\<rparr>"

text \<open>Replies with which the constructor of the first connection raises an exception
  that is no IMAP4 error and every later attempt succeeds, and replies with which the
  constructor raises it at every attempt.\<close>

definition env_transport_flaky :: env where
  "env_transport_flaky =
     env_ok\<lparr>imap_connect :=
       (\<lambda>w s u p. if conn_attempts w < 1 then Constructor_raises (Other_exception ''OSError'')
                   else Login_ok)\<rparr>"

definition env_unreachable :: env where
  "env_unreachable =
     env_ok\<lparr>imap_connect := (\<lambda>w s u p. Constructor_raises (Other_exception ''OSError''))\<rparr>"

text \<open>Replies with which the fetch of message \<^verbatim>\<open>1\<close> raises and every other fetch
  delivers a message with one attachment.\<close>

definition env_first_fails :: env where
  "env_first_fails =
     env_ok\<lparr>imap_fetch :=
       (\<lambda>w h i. if i = ''1'' then Fetch_raises (IMAP4_abort ''connection reset'')
                 else Fetch_message (Multi (hdr_root ''a@x.com'') [Leaf hdr_pdf [1, 2]]))\<rparr>"








text \<open>An account with the settings of \<open>d0\<close>.\<close>

definition acc1 :: account where
  "acc1 = \<lparr>acc_email_user = ''u@x.com'', acc_email_pass = ''pw'', acc_base_dir = ''base'',
           acc_senders_dict = [''a@x.com'' \<mapsto> ''Alice'']\<rparr>"

text \<open>Replies with which the connection of the first account of \<open>email_accounts\<close>
  cannot be constructed (an exception that is no IMAP4 error), and all else succeeds.\<close>

definition env_first_account_raises :: env where
  "env_first_account_raises =
     env_ok\<lparr>imap_connect :=
       (\<lambda>w s u p. if u = ''example@gmai.com''
                   then Constructor_raises (Other_exception ''OSError'') else Login_ok)\<rparr>"

section \<open>Properties\<close>

subsection \<open>Helper lemmas\<close>

lemma process_email_not_allowed:
  assumes "mail d = Some h"
    and "imap_fetch e w h i = Fetch_message m"
    and "in_senders (msg_From m) (senders_dict d) = Inr False"
  shows "process_email e d i w =
           logging INFO (Not_in_senders (msg_From m))
             (delivered h i (send (Fetch h i FETCH_PARTS) w))"
  using assms by (simp add: process_email_def process_email_try_def Let_def)

lemma process_email_header_object:
  assumes "mail d = Some h"
    and "imap_fetch e w h i = Fetch_message m"
    and "in_senders (msg_From m) (senders_dict d) = Inl x"
  shows "process_email e d i w =
           logging ERROR (Error_processing i x)
             (delivered h i (send (Fetch h i FETCH_PARTS) w))"
  using assms by (simp add: process_email_def process_email_try_def Let_def)

subsection \<open>is_attachment\<close>

text \<open>
  C7. For every part \<open>P\<close>, \<open>is_attachment P\<close> holds iff the main content type of
  \<open>P\<close> is not \<^verbatim>\<open>multipart\<close> and \<open>P\<close> has a Content-Disposition header (not
  \<^verbatim>\<open>None\<close>). The payload plays no role: two parts with the same headers, whatever
  their payloads, get the same answer.
\<close>

theorem is_attachment_iff:
  "(is_attachment P \<longleftrightarrow>
      maintype (part_headers P) \<noteq> ''multipart'' \<and> content_disposition (part_headers P) \<noteq> None)
   \<and> (part_headers P = part_headers Q \<longrightarrow> is_attachment P = is_attachment Q)"
  by (simp add: is_attachment_def)

theorem is_attachment_iff_witness:
  "is_attachment (Leaf hdr_pdf [1, 2]) \<and> is_attachment (Multi hdr_pdf [])
   \<and> \<not> is_attachment (Leaf (hdr_pdf\<lparr>content_disposition := None\<rparr>) [1, 2])
   \<and> \<not> is_attachment (Leaf (hdr_pdf\<lparr>maintype := ''multipart''\<rparr>) [1, 2])"
  using is_attachment_iff [of "Leaf hdr_pdf [1, 2]" "Multi hdr_pdf []"]
    is_attachment_iff [of "Leaf (hdr_pdf\<lparr>content_disposition := None\<rparr>) [1, 2]" "Leaf hdr_pdf []"]
    is_attachment_iff [of "Leaf (hdr_pdf\<lparr>maintype := ''multipart''\<rparr>) [1, 2]" "Leaf hdr_pdf []"]
  by (auto simp add: hdr_pdf_def)

subsection \<open>create_attachments_directory\<close>

text \<open>
  C9. Directory resolution is idempotent: when the directory of the day (the base
  directory joined with the date) already exists, \<open>create_attachments_directory\<close>
  changes nothing in the world, logs no error, and sets the path to that directory; a
  second call on the same day gives the same path and the same world again.
\<close>

theorem create_dir_idempotent:
  assumes "os_path_join (base_dir d) (today w) \<in> dirs w"
  shows "create_attachments_directory e d w =
           (d\<lparr>attachments_dir := Some (os_path_join (base_dir d) (today w))\<rparr>, w)
         \<and> create_attachments_directory e
               (d\<lparr>attachments_dir := Some (os_path_join (base_dir d) (today w))\<rparr>) w =
           (d\<lparr>attachments_dir := Some (os_path_join (base_dir d) (today w))\<rparr>, w)"
  using assms by (simp add: create_attachments_directory_def Let_def)

theorem create_dir_idempotent_witness:
  "create_attachments_directory env_ok d0 w_dir =
     (d0\<lparr>attachments_dir := Some ''base/2024-01-01''\<rparr>, w_dir)
   \<and> create_attachments_directory env_ok (d0\<lparr>attachments_dir := Some ''base/2024-01-01''\<rparr>) w_dir =
     (d0\<lparr>attachments_dir := Some ''base/2024-01-01''\<rparr>, w_dir)"
proof -
  have p: "os_path_join (base_dir d0) (today w_dir) = ''base/2024-01-01''"
    by (simp add: d0_def w_dir_def w0_def init_def os_path_join_def)
  have h: "os_path_join (base_dir d0) (today w_dir) \<in> dirs w_dir"
    unfolding p by (simp add: w_dir_def)
  show ?thesis
    using create_dir_idempotent [OF h, of env_ok] unfolding p .
qed

subsection \<open>Messages of senders outside the allow-list\<close>




subsection \<open>The membership test on the raw From header\<close>

text \<open>
  C10. The allow-list test looks the whole value of the From header up among the keys
  of \<open>senders_dict\<close>: a string passes it iff it is a key, as it stands. So with an
  allow-list keyed by bare addresses (no key contains \<^verbatim>\<open><\<close>), among them
  \<open>addr\<close>, the bare address passes, and a message whose From header has a display
  name, \<open>name <addr>\<close>, does not: it is handled as one that is not allow-listed. No
  file is written and no command but the fetch is sent (no store); the line in the log
  says that the sender is not among the senders when the header is ASCII, and reports
  the \<^verbatim>\<open>TypeError\<close> of the test when the display name holds a byte outside ASCII.
\<close>

theorem raw_from_header_exact:
  assumes "mail d = Some h"
    and "imap_fetch e w h i = Fetch_message m"
    and "hdr_From (part_headers m) = Some (name @ '' <'' @ addr @ ''>'')"
    and "addr \<in> dom (senders_dict d)"
    and "\<forall>k \<in> dom (senders_dict d). CHR ''<'' \<notin> set k"
  shows "in_senders (Str_header s) (senders_dict d) = Inr (s \<in> dom (senders_dict d))
         \<and> in_senders (Str_header addr) (senders_dict d) = Inr True
         \<and> in_senders (msg_From m) (senders_dict d) \<noteq> Inr True
         \<and> files (process_email e d i w) = files w
         \<and> imap_cmds (process_email e d i w) = imap_cmds w @ [Fetch h i FETCH_PARTS]
         \<and> log (process_email e d i w) =
             log w @ [if is_ascii (name @ '' <'' @ addr @ ''>'')
                      then (INFO, Not_in_senders (Str_header (name @ '' <'' @ addr @ ''>'')))
                      else (ERROR, Error_processing i (Other_exception ''TypeError''))]"
proof -
  let ?v = "name @ '' <'' @ addr @ ''>''"
  have x: "in_senders (Str_header s) (senders_dict d) = Inr (s \<in> dom (senders_dict d))"
    by (simp add: in_senders_def domIff)
  have a: "in_senders (Str_header addr) (senders_dict d) = Inr True"
    using assms(4) by (simp add: in_senders_def domIff)
  have "CHR ''<'' \<in> set ?v"
    by simp
  with assms(5) have "?v \<notin> dom (senders_dict d)"
    by blast
  then have nk: "senders_dict d ?v = None"
    by (simp add: domIff)
  show ?thesis
  proof (cases "is_ascii ?v")
    case True
    with assms(3) nk have f: "in_senders (msg_From m) (senders_dict d) = Inr False"
      by (simp add: in_senders_def msg_From_def)
    from process_email_not_allowed [OF assms(1) assms(2) f] assms(3) True x a f
    show ?thesis
      by (simp add: logging_def send_def delivered_def msg_From_def)
  next
    case False
    with assms(3)
    have f: "in_senders (msg_From m) (senders_dict d) = Inl (Other_exception ''TypeError'')"
      by (simp add: in_senders_def msg_From_def)
    from process_email_header_object [OF assms(1) assms(2) f] False x a f
    show ?thesis
      by (simp add: logging_def send_def delivered_def)
  qed
qed

theorem raw_from_header_exact_witness:
  "in_senders (Str_header ''a@x.com'') (senders_dict d_ready) = Inr True
   \<and> in_senders (Str_header ''Alice <a@x.com>'') (senders_dict d_ready) = Inr False
   \<and> files (process_email (env_fetch (Multi (hdr_root ''Alice <a@x.com>'') [Leaf hdr_pdf [1, 2]]))
        d_ready ''7'' w_dir) = files w_dir
   \<and> imap_cmds (process_email (env_fetch (Multi (hdr_root ''Alice <a@x.com>'') [Leaf hdr_pdf [1, 2]]))
        d_ready ''7'' w_dir) = [Fetch 0 ''7'' ''(RFC822)'']
   \<and> log (process_email (env_fetch (Multi (hdr_root ''Alice <a@x.com>'') [Leaf hdr_pdf [1, 2]]))
        d_ready ''7'' w_dir) = [(INFO, Not_in_senders (Str_header ''Alice <a@x.com>''))]"
proof -
  let ?m = "Multi (hdr_root ''Alice <a@x.com>'') [Leaf hdr_pdf [1, 2]]"
  have h1: "mail d_ready = Some 0"
    by (simp add: d_ready_def)
  have h2: "imap_fetch (env_fetch ?m) w_dir 0 ''7'' = Fetch_message ?m"
    by (simp add: env_fetch_def)
  have h3: "hdr_From (part_headers ?m) = Some (''Alice'' @ '' <'' @ ''a@x.com'' @ ''>'')"
    by (simp add: hdr_root_def)
  have h4: "''a@x.com'' \<in> dom (senders_dict d_ready)"
    by (simp add: d_ready_def d0_def init_def)
  have h5: "\<forall>k \<in> dom (senders_dict d_ready). CHR ''<'' \<notin> set k"
    by (simp add: d_ready_def d0_def init_def)
  have k: "dom (senders_dict d_ready) = {''a@x.com''}"
    by (simp add: d_ready_def d0_def init_def)
  have c: "imap_cmds w_dir = []" "log w_dir = []"
    by (simp_all add: w_dir_def w0_def)
  from raw_from_header_exact [OF h1 h2 h3 h4 h5, of "''Alice <a@x.com>''"]
  show ?thesis
    unfolding k c by (simp add: is_ascii_def FETCH_PARTS_def)
qed

subsection \<open>logout\<close>

text \<open>
  C3, as the code has it. \<open>logout\<close> does nothing when no connection is held
  (\<open>mail\<close> is \<open>None\<close>): it returns with the world unchanged, however often it is
  called. With a connection it sends a logout on every call, the handle is kept, and
  whatever that logout raises is raised by \<open>logout\<close>: nothing is caught.
\<close>

theorem logout_behaviour:
  "(mail d = None \<longrightarrow> logout e d w = (None, w))
   \<and> (mail d = Some h \<longrightarrow>
        fst (logout e d w) = imap_logout e w h
        \<and> imap_cmds (snd (logout e d w)) = imap_cmds w @ [Logout h])"
  by (simp add: logout_def Let_def send_def logging_def split: option.splits)

theorem logout_behaviour_witness:
  "logout env_logout_raises d0 w0 = (None, w0)
   \<and> fst (logout env_ok d_ready w0) = None
   \<and> imap_cmds (snd (logout env_ok d_ready w0)) = [Logout 0]"
  using logout_behaviour [of d0 env_logout_raises w0 0]
    logout_behaviour [of d_ready env_ok w0 0]
  by (simp add: d0_def init_def d_ready_def env_ok_def w0_def)

text \<open>C3 as stated fails: a logout that raises is not caught, and a second call with a
  connection is not a no-op (the logout is sent again).\<close>

theorem logout_raises_counterexample:
  "fst (logout env_logout_raises d_ready w0) = Some (IMAP4_abort ''socket error'')
   \<and> imap_cmds (snd (logout env_ok d_ready (snd (logout env_ok d_ready w0))))
       = [Logout 0, Logout 0]"
  by (simp add: logout_def Let_def send_def logging_def d_ready_def env_logout_raises_def
      env_ok_def w0_def)

subsection \<open>connect\<close>

lemma connect_try_fails:
  assumes "fails_transiently (imap_connect e w GMAIL_IMAP_SERVER (email_user d) (email_pass d))"
  shows "\<exists>x d1. connect_try e d w = (Some x, d1, w\<lparr>conn_attempts := Suc (conn_attempts w)\<rparr>)
           \<and> is_IMAP4_error x \<and> email_user d1 = email_user d \<and> email_pass d1 = email_pass d"
  using assms
  by (auto simp add: fails_transiently_def connect_try_def Let_def split: conn_reply.splits)

lemma connect_try_ok:
  assumes "imap_connect e w GMAIL_IMAP_SERVER (email_user d) (email_pass d) = Login_ok"
  shows "connect_try e d w =
           (None, d\<lparr>mail := Some (conn_attempts w)\<rparr>,
            logging INFO (Connected_to_Gmail (email_user d))
              (w\<lparr>conn_attempts := Suc (conn_attempts w)\<rparr>))"
  using assms by (simp add: connect_try_def Let_def)

lemma connect_loop_fail_then_ok:
  assumes "\<forall>w'. conn_attempts w \<le> conn_attempts w' \<and> conn_attempts w' < conn_attempts w + N \<longrightarrow>
             fails_transiently (imap_connect e w' GMAIL_IMAP_SERVER (email_user d) (email_pass d))"
    and "\<forall>w'. conn_attempts w' = conn_attempts w + N \<longrightarrow>
             imap_connect e w' GMAIL_IMAP_SERVER (email_user d) (email_pass d) = Login_ok"
    and "retries + N < MAX_RETRIES"
  shows "fst (connect_loop e retries d w) = None
         \<and> mail (fst (snd (connect_loop e retries d w))) = Some (conn_attempts w + N)
         \<and> conn_attempts (snd (snd (connect_loop e retries d w))) = conn_attempts w + N + 1
         \<and> sleeps (snd (snd (connect_loop e retries d w))) = sleeps w @ replicate N RETRY_DELAY"
  using assms
proof (induction N arbitrary: retries d w)
  case 0
  then have ok: "imap_connect e w GMAIL_IMAP_SERVER (email_user d) (email_pass d) = Login_ok"
    by simp
  from 0 have lt: "retries < MAX_RETRIES" by simp
  have "connect_loop e retries d w =
          (None, d\<lparr>mail := Some (conn_attempts w)\<rparr>,
           logging INFO (Connected_to_Gmail (email_user d))
             (w\<lparr>conn_attempts := Suc (conn_attempts w)\<rparr>))"
    using lt by (subst connect_loop.simps) (simp add: connect_try_ok [OF ok])
  then show ?case
    by (simp add: logging_def)
next
  case (Suc n)
  have "fails_transiently (imap_connect e w GMAIL_IMAP_SERVER (email_user d) (email_pass d))"
    using Suc.prems(1) by simp
  from connect_try_fails [OF this] obtain x d1 where
    t: "connect_try e d w = (Some x, d1, w\<lparr>conn_attempts := Suc (conn_attempts w)\<rparr>)"
    and x: "is_IMAP4_error x"
    and u: "email_user d1 = email_user d" "email_pass d1 = email_pass d"
    by blast
  define w2 where
    "w2 = sleep RETRY_DELAY (logging INFO (Retrying_connection RETRY_DELAY)
            (logging ERROR (Failed_to_connect (retries + 1) MAX_RETRIES x)
               (w\<lparr>conn_attempts := Suc (conn_attempts w)\<rparr>)))"
  have lt: "retries < MAX_RETRIES" "retries + 1 < MAX_RETRIES"
    using Suc.prems(3) by simp_all
  have step: "connect_loop e retries d w = connect_loop e (retries + 1) d1 w2"
    using lt by (subst connect_loop.simps) (simp add: t x w2_def Let_def)
  have c2: "conn_attempts w2 = Suc (conn_attempts w)" "sleeps w2 = sleeps w @ [RETRY_DELAY]"
    by (simp_all add: w2_def sleep_def logging_def)
  have "fst (connect_loop e (retries + 1) d1 w2) = None
         \<and> mail (fst (snd (connect_loop e (retries + 1) d1 w2))) = Some (conn_attempts w2 + n)
         \<and> conn_attempts (snd (snd (connect_loop e (retries + 1) d1 w2))) = conn_attempts w2 + n + 1
         \<and> sleeps (snd (snd (connect_loop e (retries + 1) d1 w2))) = sleeps w2 @ replicate n RETRY_DELAY"
  proof (rule Suc.IH)
    show "\<forall>w'. conn_attempts w2 \<le> conn_attempts w' \<and> conn_attempts w' < conn_attempts w2 + n \<longrightarrow>
             fails_transiently (imap_connect e w' GMAIL_IMAP_SERVER (email_user d1) (email_pass d1))"
      using Suc.prems(1) by (simp add: c2 u)
    show "\<forall>w'. conn_attempts w' = conn_attempts w2 + n \<longrightarrow>
             imap_connect e w' GMAIL_IMAP_SERVER (email_user d1) (email_pass d1) = Login_ok"
      using Suc.prems(2) by (simp add: c2 u)
    show "retries + 1 + n < MAX_RETRIES"
      using Suc.prems(3) by simp
  qed
  then show ?case
    by (simp add: step c2 replicate_app_Cons_same)
qed

lemma connect_loop_fail_then_raise:
  assumes "\<forall>w'. conn_attempts w \<le> conn_attempts w' \<and> conn_attempts w' < conn_attempts w + N \<longrightarrow>
             fails_transiently (imap_connect e w' GMAIL_IMAP_SERVER (email_user d) (email_pass d))"
    and "\<forall>w'. conn_attempts w' = conn_attempts w + N \<longrightarrow>
             imap_connect e w' GMAIL_IMAP_SERVER (email_user d) (email_pass d) = Constructor_raises x
             \<or> imap_connect e w' GMAIL_IMAP_SERVER (email_user d) (email_pass d) = Login_raises x"
    and "\<not> is_IMAP4_error x"
    and "retries + N < MAX_RETRIES"
  shows "fst (connect_loop e retries d w) = Some x
         \<and> conn_attempts (snd (snd (connect_loop e retries d w))) = conn_attempts w + N + 1
         \<and> sleeps (snd (snd (connect_loop e retries d w))) = sleeps w @ replicate N RETRY_DELAY"
  using assms
proof (induction N arbitrary: retries d w)
  case 0
  then have r: "imap_connect e w GMAIL_IMAP_SERVER (email_user d) (email_pass d) = Constructor_raises x
      \<or> imap_connect e w GMAIL_IMAP_SERVER (email_user d) (email_pass d) = Login_raises x"
    by simp
  from 0 have lt: "retries < MAX_RETRIES" by simp
  from r obtain d1 where
    t: "connect_try e d w = (Some x, d1, w\<lparr>conn_attempts := Suc (conn_attempts w)\<rparr>)"
    by (auto simp add: connect_try_def Let_def)
  have "connect_loop e retries d w = (Some x, d1, w\<lparr>conn_attempts := Suc (conn_attempts w)\<rparr>)"
    using lt 0(3) by (subst connect_loop.simps) (simp add: t)
  then show ?case
    by simp
next
  case (Suc n)
  have "fails_transiently (imap_connect e w GMAIL_IMAP_SERVER (email_user d) (email_pass d))"
    using Suc.prems(1) by simp
  from connect_try_fails [OF this] obtain y d1 where
    t: "connect_try e d w = (Some y, d1, w\<lparr>conn_attempts := Suc (conn_attempts w)\<rparr>)"
    and x: "is_IMAP4_error y"
    and u: "email_user d1 = email_user d" "email_pass d1 = email_pass d"
    by blast
  define w2 where
    "w2 = sleep RETRY_DELAY (logging INFO (Retrying_connection RETRY_DELAY)
            (logging ERROR (Failed_to_connect (retries + 1) MAX_RETRIES y)
               (w\<lparr>conn_attempts := Suc (conn_attempts w)\<rparr>)))"
  have lt: "retries < MAX_RETRIES" "retries + 1 < MAX_RETRIES"
    using Suc.prems(4) by simp_all
  have step: "connect_loop e retries d w = connect_loop e (retries + 1) d1 w2"
    using lt by (subst connect_loop.simps) (simp add: t x w2_def Let_def)
  have c2: "conn_attempts w2 = Suc (conn_attempts w)" "sleeps w2 = sleeps w @ [RETRY_DELAY]"
    by (simp_all add: w2_def sleep_def logging_def)
  have "fst (connect_loop e (retries + 1) d1 w2) = Some x
         \<and> conn_attempts (snd (snd (connect_loop e (retries + 1) d1 w2))) = conn_attempts w2 + n + 1
         \<and> sleeps (snd (snd (connect_loop e (retries + 1) d1 w2))) = sleeps w2 @ replicate n RETRY_DELAY"
  proof (rule Suc.IH)
    show "\<forall>w'. conn_attempts w2 \<le> conn_attempts w' \<and> conn_attempts w' < conn_attempts w2 + n \<longrightarrow>
             fails_transiently (imap_connect e w' GMAIL_IMAP_SERVER (email_user d1) (email_pass d1))"
      using Suc.prems(1) by (simp add: c2 u)
    show "\<forall>w'. conn_attempts w' = conn_attempts w2 + n \<longrightarrow>
             imap_connect e w' GMAIL_IMAP_SERVER (email_user d1) (email_pass d1) = Constructor_raises x
             \<or> imap_connect e w' GMAIL_IMAP_SERVER (email_user d1) (email_pass d1) = Login_raises x"
      using Suc.prems(2) by (simp add: c2 u)
    show "\<not> is_IMAP4_error x"
      by (rule Suc.prems(3))
    show "retries + 1 + n < MAX_RETRIES"
      using Suc.prems(4) by simp
  qed
  then show ?case
    by (simp add: step c2 replicate_app_Cons_same)
qed

lemma connect_loop_all_fail:
  assumes "\<forall>w'. conn_attempts w \<le> conn_attempts w' \<and> conn_attempts w' < conn_attempts w + k \<longrightarrow>
             fails_transiently (imap_connect e w' GMAIL_IMAP_SERVER (email_user d) (email_pass d))"
    and "retries + k = MAX_RETRIES"
  shows "fst (connect_loop e retries d w) = None
         \<and> mail (fst (snd (connect_loop e retries d w))) = None
         \<and> conn_attempts (snd (snd (connect_loop e retries d w))) = conn_attempts w + k
         \<and> sleeps (snd (snd (connect_loop e retries d w))) = sleeps w @ replicate (k - 1) RETRY_DELAY
         \<and> last (log (snd (snd (connect_loop e retries d w)))) =
             (ERROR, Failed_to_connect_after MAX_RETRIES)
         \<and> (ERROR, Failed_to_connect_after MAX_RETRIES)
               \<in> set (log (snd (snd (connect_loop e retries d w))))
         \<and> imap_cmds (snd (snd (connect_loop e retries d w))) = imap_cmds w
         \<and> files (snd (snd (connect_loop e retries d w))) = files w
         \<and> dirs (snd (snd (connect_loop e retries d w))) = dirs w
         \<and> seen (snd (snd (connect_loop e retries d w))) = seen w
         \<and> today (snd (snd (connect_loop e retries d w))) = today w"
  using assms
proof (induction k arbitrary: retries d w)
  case 0
  then have "\<not> retries < MAX_RETRIES" by simp
  then have "connect_loop e retries d w =
          (None, d\<lparr>mail := None\<rparr>, logging ERROR (Failed_to_connect_after MAX_RETRIES) w)"
    by (subst connect_loop.simps) simp
  then show ?case
    by (simp add: logging_def)
next
  case (Suc n)
  have "fails_transiently (imap_connect e w GMAIL_IMAP_SERVER (email_user d) (email_pass d))"
    using Suc.prems(1) by simp
  from connect_try_fails [OF this] obtain x d1 where
    t: "connect_try e d w = (Some x, d1, w\<lparr>conn_attempts := Suc (conn_attempts w)\<rparr>)"
    and x: "is_IMAP4_error x"
    and u: "email_user d1 = email_user d" "email_pass d1 = email_pass d"
    by blast
  define w1 where
    "w1 = logging ERROR (Failed_to_connect (retries + 1) MAX_RETRIES x)
               (w\<lparr>conn_attempts := Suc (conn_attempts w)\<rparr>)"
  define w2 where
    "w2 = (if retries + 1 < MAX_RETRIES
           then sleep RETRY_DELAY (logging INFO (Retrying_connection RETRY_DELAY) w1) else w1)"
  have lt: "retries < MAX_RETRIES"
    using Suc.prems(2) by simp
  have step: "connect_loop e retries d w = connect_loop e (retries + 1) d1 w2"
    using lt by (subst connect_loop.simps) (simp add: t x w1_def w2_def Let_def)
  have c2: "conn_attempts w2 = Suc (conn_attempts w)"
    "sleeps w2 = sleeps w @ (if 0 < n then [RETRY_DELAY] else [])"
    "imap_cmds w2 = imap_cmds w" "files w2 = files w" "dirs w2 = dirs w" "seen w2 = seen w"
    "today w2 = today w"
    using Suc.prems(2) by (auto simp add: w2_def w1_def sleep_def logging_def)
  have "fst (connect_loop e (retries + 1) d1 w2) = None
         \<and> mail (fst (snd (connect_loop e (retries + 1) d1 w2))) = None
         \<and> conn_attempts (snd (snd (connect_loop e (retries + 1) d1 w2))) = conn_attempts w2 + n
         \<and> sleeps (snd (snd (connect_loop e (retries + 1) d1 w2))) = sleeps w2 @ replicate (n - 1) RETRY_DELAY
         \<and> last (log (snd (snd (connect_loop e (retries + 1) d1 w2)))) =
             (ERROR, Failed_to_connect_after MAX_RETRIES)
         \<and> (ERROR, Failed_to_connect_after MAX_RETRIES)
               \<in> set (log (snd (snd (connect_loop e (retries + 1) d1 w2))))
         \<and> imap_cmds (snd (snd (connect_loop e (retries + 1) d1 w2))) = imap_cmds w2
         \<and> files (snd (snd (connect_loop e (retries + 1) d1 w2))) = files w2
         \<and> dirs (snd (snd (connect_loop e (retries + 1) d1 w2))) = dirs w2
         \<and> seen (snd (snd (connect_loop e (retries + 1) d1 w2))) = seen w2
         \<and> today (snd (snd (connect_loop e (retries + 1) d1 w2))) = today w2"
  proof (rule Suc.IH)
    show "\<forall>w'. conn_attempts w2 \<le> conn_attempts w' \<and> conn_attempts w' < conn_attempts w2 + n \<longrightarrow>
             fails_transiently (imap_connect e w' GMAIL_IMAP_SERVER (email_user d1) (email_pass d1))"
      using Suc.prems(1) by (simp add: c2 u)
    show "retries + 1 + n = MAX_RETRIES"
      using Suc.prems(2) by simp
  qed
  moreover have "(if 0 < n then [RETRY_DELAY] else []) @ replicate (n - 1) RETRY_DELAY
                   = replicate n RETRY_DELAY"
    by (cases n) simp_all
  ultimately show ?case
    by (simp add: step c2)
qed

text \<open>
  C4, as the code has it. The failures that \<open>connect\<close> retries are the IMAP4 errors
  (\<^verbatim>\<open>imaplib.IMAP4.error\<close> and its subclasses). When the first \<open>N\<close> attempts of
  a call raise an IMAP4 error and the next one succeeds, \<open>connect\<close> ends with a
  connection iff \<open>N < 3\<close>; it then has made exactly \<open>N + 1\<close> attempts and \<open>N\<close>
  pauses of 5 seconds, and holds the handle of the last attempt. When every attempt
  raises an IMAP4 error, exactly 3 attempts and 2 pauses are made, the failure after 3
  attempts is logged and no handle is kept (\<open>mail\<close> is \<open>None\<close>). In both cases
  \<open>connect\<close> returns normally and has no result: success and failure differ in
  \<open>mail\<close> and the log only. An attempt that raises anything else (an
  \<^verbatim>\<open>OSError\<close> of the constructor, say) is not retried: \<open>connect\<close> raises that
  exception at once, without a pause.
\<close>

theorem connect_retry:
  "((\<forall>w'. conn_attempts w \<le> conn_attempts w' \<and> conn_attempts w' < conn_attempts w + N \<longrightarrow>
        fails_transiently (imap_connect e w' GMAIL_IMAP_SERVER (email_user d) (email_pass d)))
    \<and> (\<forall>w'. conn_attempts w' = conn_attempts w + N \<longrightarrow>
        imap_connect e w' GMAIL_IMAP_SERVER (email_user d) (email_pass d) = Login_ok)
    \<longrightarrow> fst (connect e d w) = None
        \<and> (mail (fst (snd (connect e d w))) \<noteq> None \<longleftrightarrow> N < 3)
        \<and> (N < 3 \<longrightarrow>
             mail (fst (snd (connect e d w))) = Some (conn_attempts w + N)
             \<and> conn_attempts (snd (snd (connect e d w))) = conn_attempts w + (N + 1)
             \<and> sleeps (snd (snd (connect e d w))) = sleeps w @ replicate N 5)
        \<and> (\<not> N < 3 \<longrightarrow>
             conn_attempts (snd (snd (connect e d w))) = conn_attempts w + 3
             \<and> sleeps (snd (snd (connect e d w))) = sleeps w @ [5, 5]))
   \<and> ((\<forall>w'. conn_attempts w \<le> conn_attempts w' \<longrightarrow>
        fails_transiently (imap_connect e w' GMAIL_IMAP_SERVER (email_user d) (email_pass d)))
    \<longrightarrow> fst (connect e d w) = None
        \<and> mail (fst (snd (connect e d w))) = None
        \<and> conn_attempts (snd (snd (connect e d w))) = conn_attempts w + 3
        \<and> sleeps (snd (snd (connect e d w))) = sleeps w @ [5, 5]
        \<and> last (log (snd (snd (connect e d w)))) = (ERROR, Failed_to_connect_after 3))
   \<and> ((\<forall>w'. conn_attempts w \<le> conn_attempts w' \<and> conn_attempts w' < conn_attempts w + N \<longrightarrow>
        fails_transiently (imap_connect e w' GMAIL_IMAP_SERVER (email_user d) (email_pass d)))
    \<and> (\<forall>w'. conn_attempts w' = conn_attempts w + N \<longrightarrow>
        imap_connect e w' GMAIL_IMAP_SERVER (email_user d) (email_pass d) = Constructor_raises x
        \<or> imap_connect e w' GMAIL_IMAP_SERVER (email_user d) (email_pass d) = Login_raises x)
    \<and> \<not> is_IMAP4_error x \<and> N < 3
    \<longrightarrow> fst (connect e d w) = Some x
        \<and> conn_attempts (snd (snd (connect e d w))) = conn_attempts w + (N + 1)
        \<and> sleeps (snd (snd (connect e d w))) = sleeps w @ replicate N 5)"
proof -
  let ?r = "connect e d w"
  have first: "fst ?r = None
        \<and> (mail (fst (snd ?r)) \<noteq> None \<longleftrightarrow> N < 3)
        \<and> (N < 3 \<longrightarrow>
             mail (fst (snd ?r)) = Some (conn_attempts w + N)
             \<and> conn_attempts (snd (snd ?r)) = conn_attempts w + (N + 1)
             \<and> sleeps (snd (snd ?r)) = sleeps w @ replicate N 5)
        \<and> (\<not> N < 3 \<longrightarrow>
             conn_attempts (snd (snd ?r)) = conn_attempts w + 3
             \<and> sleeps (snd (snd ?r)) = sleeps w @ [5, 5])"
    if a1: "\<forall>w'. conn_attempts w \<le> conn_attempts w' \<and> conn_attempts w' < conn_attempts w + N \<longrightarrow>
        fails_transiently (imap_connect e w' GMAIL_IMAP_SERVER (email_user d) (email_pass d))"
      and a2: "\<forall>w'. conn_attempts w' = conn_attempts w + N \<longrightarrow>
        imap_connect e w' GMAIL_IMAP_SERVER (email_user d) (email_pass d) = Login_ok"
  proof (cases "N < 3")
    case True
    then have "0 + N < MAX_RETRIES"
      by (simp add: MAX_RETRIES_def)
    from connect_loop_fail_then_ok [OF a1 a2 this] True show ?thesis
      by (simp add: connect_def RETRY_DELAY_def)
  next
    case False
    then have "\<forall>w'. conn_attempts w \<le> conn_attempts w' \<and> conn_attempts w' < conn_attempts w + 3 \<longrightarrow>
        fails_transiently (imap_connect e w' GMAIL_IMAP_SERVER (email_user d) (email_pass d))"
      using a1 by simp
    moreover have "0 + 3 = MAX_RETRIES"
      by (simp add: MAX_RETRIES_def)
    ultimately have "fst (connect_loop e 0 d w) = None
         \<and> mail (fst (snd (connect_loop e 0 d w))) = None
         \<and> conn_attempts (snd (snd (connect_loop e 0 d w))) = conn_attempts w + 3
         \<and> sleeps (snd (snd (connect_loop e 0 d w))) = sleeps w @ replicate (3 - 1) RETRY_DELAY"
      using connect_loop_all_fail [of w 3 e d 0] by simp
    with False show ?thesis
      by (simp add: connect_def RETRY_DELAY_def numeral_2_eq_2)
  qed
  have second: "fst ?r = None
        \<and> mail (fst (snd ?r)) = None
        \<and> conn_attempts (snd (snd ?r)) = conn_attempts w + 3
        \<and> sleeps (snd (snd ?r)) = sleeps w @ [5, 5]
        \<and> last (log (snd (snd ?r))) = (ERROR, Failed_to_connect_after 3)"
    if b: "\<forall>w'. conn_attempts w \<le> conn_attempts w' \<longrightarrow> fails_transiently
             (imap_connect e w' GMAIL_IMAP_SERVER (email_user d) (email_pass d))"
  proof -
    have "\<forall>w'. conn_attempts w \<le> conn_attempts w' \<and> conn_attempts w' < conn_attempts w + 3 \<longrightarrow>
        fails_transiently (imap_connect e w' GMAIL_IMAP_SERVER (email_user d) (email_pass d))"
      using b by simp
    moreover have "0 + 3 = MAX_RETRIES"
      by (simp add: MAX_RETRIES_def)
    ultimately have "fst (connect_loop e 0 d w) = None
         \<and> mail (fst (snd (connect_loop e 0 d w))) = None
         \<and> conn_attempts (snd (snd (connect_loop e 0 d w))) = conn_attempts w + 3
         \<and> sleeps (snd (snd (connect_loop e 0 d w))) = sleeps w @ replicate (3 - 1) RETRY_DELAY
         \<and> last (log (snd (snd (connect_loop e 0 d w)))) =
             (ERROR, Failed_to_connect_after MAX_RETRIES)"
      using connect_loop_all_fail [of w 3 e d 0] by simp
    then show ?thesis
      by (simp add: connect_def RETRY_DELAY_def MAX_RETRIES_def numeral_2_eq_2)
  qed
  have third: "fst ?r = Some x
        \<and> conn_attempts (snd (snd ?r)) = conn_attempts w + (N + 1)
        \<and> sleeps (snd (snd ?r)) = sleeps w @ replicate N 5"
    if c1: "\<forall>w'. conn_attempts w \<le> conn_attempts w' \<and> conn_attempts w' < conn_attempts w + N \<longrightarrow>
        fails_transiently (imap_connect e w' GMAIL_IMAP_SERVER (email_user d) (email_pass d))"
      and c2: "\<forall>w'. conn_attempts w' = conn_attempts w + N \<longrightarrow>
        imap_connect e w' GMAIL_IMAP_SERVER (email_user d) (email_pass d) = Constructor_raises x
        \<or> imap_connect e w' GMAIL_IMAP_SERVER (email_user d) (email_pass d) = Login_raises x"
      and c3: "\<not> is_IMAP4_error x" and c4: "N < 3"
  proof -
    from c4 have "0 + N < MAX_RETRIES"
      by (simp add: MAX_RETRIES_def)
    from connect_loop_fail_then_raise [OF c1 c2 c3 this] show ?thesis
      by (simp add: connect_def RETRY_DELAY_def)
  qed
  from first second third show ?thesis
    by blast
qed

theorem connect_retry_witness:
  "mail (fst (snd (connect (env_flaky 2) d0 w0))) = Some 2
   \<and> conn_attempts (snd (snd (connect (env_flaky 2) d0 w0))) = 3
   \<and> sleeps (snd (snd (connect (env_flaky 2) d0 w0))) = [5, 5]
   \<and> mail (fst (snd (connect env_down d0 w0))) = None
   \<and> conn_attempts (snd (snd (connect env_down d0 w0))) = 3
   \<and> sleeps (snd (snd (connect env_down d0 w0))) = [5, 5]
   \<and> fst (connect env_transport_flaky d0 w0) = Some (Other_exception ''OSError'')
   \<and> conn_attempts (snd (snd (connect env_transport_flaky d0 w0))) = 1
   \<and> sleeps (snd (snd (connect env_transport_flaky d0 w0))) = []"
proof -
  let ?failing = "\<lambda>e w'. fails_transiently
          (imap_connect e w' GMAIL_IMAP_SERVER (email_user d0) (email_pass d0))"
  have h1: "\<forall>w'. conn_attempts w0 \<le> conn_attempts w' \<and> conn_attempts w' < conn_attempts w0 + 2 \<longrightarrow>
        ?failing (env_flaky 2) w'"
    by (simp add: env_flaky_def fails_transiently_def w0_def)
  have h2: "\<forall>w'. conn_attempts w' = conn_attempts w0 + 2 \<longrightarrow>
        imap_connect (env_flaky 2) w' GMAIL_IMAP_SERVER (email_user d0) (email_pass d0) = Login_ok"
    by (simp add: env_flaky_def w0_def)
  have h3: "\<forall>w'. conn_attempts w0 \<le> conn_attempts w' \<longrightarrow> ?failing env_down w'"
    by (simp add: env_down_def fails_transiently_def)
  have h4: "\<forall>w'. conn_attempts w0 \<le> conn_attempts w' \<and> conn_attempts w' < conn_attempts w0 + 0 \<longrightarrow>
        ?failing env_transport_flaky w'"
    by auto
  have h5: "\<forall>w'. conn_attempts w' = conn_attempts w0 + 0 \<longrightarrow>
        imap_connect env_transport_flaky w' GMAIL_IMAP_SERVER (email_user d0) (email_pass d0)
          = Constructor_raises (Other_exception ''OSError'')
        \<or> imap_connect env_transport_flaky w' GMAIL_IMAP_SERVER (email_user d0) (email_pass d0)
          = Login_raises (Other_exception ''OSError'')"
    by (simp add: env_transport_flaky_def w0_def)
  have h6: "\<not> is_IMAP4_error (Other_exception ''OSError'')"
    by simp
  have s: "replicate 2 (5::nat) = [5, 5]"
    by (simp add: numeral_2_eq_2)
  have c: "conn_attempts w0 = 0" "sleeps w0 = []"
    by (simp_all add: w0_def)
  from connect_retry [of w0 2 "env_flaky 2" d0] h1 h2
  have a: "mail (fst (snd (connect (env_flaky 2) d0 w0))) = Some 2
   \<and> conn_attempts (snd (snd (connect (env_flaky 2) d0 w0))) = 3
   \<and> sleeps (snd (snd (connect (env_flaky 2) d0 w0))) = [5, 5]"
    by (simp add: c s)
  from connect_retry [of w0 0 env_down d0] h3
  have b: "mail (fst (snd (connect env_down d0 w0))) = None
   \<and> conn_attempts (snd (snd (connect env_down d0 w0))) = 3
   \<and> sleeps (snd (snd (connect env_down d0 w0))) = [5, 5]"
    by (simp add: c)
  from connect_retry [of w0 0 env_transport_flaky d0 "Other_exception ''OSError''"] h4 h5 h6
  have d: "fst (connect env_transport_flaky d0 w0) = Some (Other_exception ''OSError'')
   \<and> conn_attempts (snd (snd (connect env_transport_flaky d0 w0))) = 1
   \<and> sleeps (snd (snd (connect env_transport_flaky d0 w0))) = []"
    by (simp add: c)
  from a b d show ?thesis
    by simp
qed

text \<open>C4 as stated fails. A transport failure of the first attempt (the constructor
  raises \<^verbatim>\<open>OSError\<close>, which is no IMAP4 error), after which the connection would
  succeed, gives no second attempt and no pause: \<open>connect\<close> raises. A connection that
  fails so for ever gets one attempt, not three. And \<open>connect\<close> has no result that
  tells failure from success: after three IMAP4 errors it returns as it does after a
  success.\<close>

theorem connect_transport_failure_counterexample:
  "fst (connect env_transport_flaky d0 w0) = Some (Other_exception ''OSError'')
   \<and> conn_attempts (snd (snd (connect env_transport_flaky d0 w0))) = 1
   \<and> sleeps (snd (snd (connect env_transport_flaky d0 w0))) = []
   \<and> mail (fst (snd (connect env_transport_flaky d0 w0))) = None
   \<and> imap_connect env_transport_flaky (w0\<lparr>conn_attempts := 1\<rparr>) GMAIL_IMAP_SERVER ''u@x.com'' ''pw''
       = Login_ok
   \<and> conn_attempts (snd (snd (connect env_unreachable d0 w0))) = 1
   \<and> fst (connect env_down d0 w0) = None
   \<and> fst (connect env_ok d0 w0) = None"
  by (simp add: connect_def connect_loop.simps connect_try_def env_transport_flaky_def
      env_unreachable_def env_down_def env_ok_def d0_def init_def w0_def MAX_RETRIES_def
      RETRY_DELAY_def Let_def logging_def sleep_def)

subsection \<open>Isolation of the messages of a batch\<close>

lemma save_attachment_frame:
  "imap_cmds (snd (save_attachment e d p s w)) = imap_cmds w
   \<and> seen (snd (save_attachment e d p s w)) = seen w
   \<and> dirs (snd (save_attachment e d p s w)) = dirs w
   \<and> conn_attempts (snd (save_attachment e d p s w)) = conn_attempts w
   \<and> sleeps (snd (save_attachment e d p s w)) = sleeps w
   \<and> today (snd (save_attachment e d p s w)) = today w
   \<and> set (log w) \<subseteq> set (log (snd (save_attachment e d p s w)))"
  by (auto simp add: save_attachment_def Let_def logging_def
      split: option.splits write_reply.splits)

lemma save_parts_frame:
  "imap_cmds (snd (save_parts e d s ps w)) = imap_cmds w
   \<and> seen (snd (save_parts e d s ps w)) = seen w
   \<and> dirs (snd (save_parts e d s ps w)) = dirs w
   \<and> conn_attempts (snd (save_parts e d s ps w)) = conn_attempts w
   \<and> sleeps (snd (save_parts e d s ps w)) = sleeps w
   \<and> today (snd (save_parts e d s ps w)) = today w
   \<and> set (log w) \<subseteq> set (log (snd (save_parts e d s ps w)))"
proof (induction ps arbitrary: w)
  case Nil
  show ?case by simp
next
  case (Cons p ps)
  obtain r w1 where sa: "save_attachment e d p s w = (r, w1)"
    by (cases "save_attachment e d p s w")
  with save_attachment_frame [of e d p s w]
  have f: "imap_cmds w1 = imap_cmds w" "seen w1 = seen w" "dirs w1 = dirs w"
    "conn_attempts w1 = conn_attempts w" "sleeps w1 = sleeps w" "today w1 = today w"
    "set (log w) \<subseteq> set (log w1)"
    by simp_all
  show ?case
  proof (cases "is_attachment p")
    case False
    with Cons.IH [of w] show ?thesis by simp
  next
    case True
    show ?thesis
    proof (cases r)
      case None
      with Cons.IH [of w1] True f show ?thesis
        by (auto simp add: sa)
    next
      case (Some x)
      with True f show ?thesis
        by (simp add: sa)
    qed
  qed
qed

lemma save_attachments_frame:
  "imap_cmds (snd (save_attachments e d m s w)) = imap_cmds w
   \<and> seen (snd (save_attachments e d m s w)) = seen w
   \<and> dirs (snd (save_attachments e d m s w)) = dirs w
   \<and> conn_attempts (snd (save_attachments e d m s w)) = conn_attempts w
   \<and> sleeps (snd (save_attachments e d m s w)) = sleeps w
   \<and> today (snd (save_attachments e d m s w)) = today w
   \<and> set (log w) \<subseteq> set (log (snd (save_attachments e d m s w)))"
  using save_parts_frame [of e d s "walk m" w]
  by (simp add: save_attachments_def)

lemma process_email_try_frame:
  "conn_attempts (snd (process_email_try e d i w)) = conn_attempts w
   \<and> dirs (snd (process_email_try e d i w)) = dirs w
   \<and> sleeps (snd (process_email_try e d i w)) = sleeps w
   \<and> today (snd (process_email_try e d i w)) = today w
   \<and> set (log w) \<subseteq> set (log (snd (process_email_try e d i w)))
   \<and> (mail d = Some h \<longrightarrow>
        imap_cmds (snd (process_email_try e d i w)) = imap_cmds w @ [Fetch h i FETCH_PARTS]
        \<or> imap_cmds (snd (process_email_try e d i w)) =
             imap_cmds w @ [Fetch h i FETCH_PARTS, Store h i STORE_COMMAND SEEN_FLAG])"
proof (cases "mail d")
  case None
  then show ?thesis
    by (simp add: process_email_try_def)
next
  case (Some h')
  show ?thesis
  proof (cases "imap_fetch e w h' i")
    case (Fetch_message m)
    let ?w1d = "delivered h' i (send (Fetch h' i FETCH_PARTS) w)"
    let ?s = "case msg_From m of Str_header s \<Rightarrow> s | _ \<Rightarrow> []"
    obtain r w2 where sa: "save_attachments e d m ?s ?w1d = (r, w2)"
      by (cases "save_attachments e d m ?s ?w1d")
    with save_attachments_frame [of e d m ?s ?w1d]
    have f: "imap_cmds w2 = imap_cmds ?w1d" "dirs w2 = dirs ?w1d"
      "conn_attempts w2 = conn_attempts ?w1d" "sleeps w2 = sleeps ?w1d" "today w2 = today ?w1d"
      "set (log ?w1d) \<subseteq> set (log w2)"
      by simp_all
    show ?thesis
    proof (cases "in_senders (msg_From m) (senders_dict d)")
      case (Inl x)
      with Some Fetch_message show ?thesis
        by (auto simp add: process_email_try_def Let_def send_def delivered_def)
    next
      case (Inr b)
      show ?thesis
      proof (cases b)
        case False
        with Some Fetch_message Inr show ?thesis
          by (auto simp add: process_email_try_def Let_def send_def delivered_def logging_def)
      next
        case True
        with Some Fetch_message Inr sa f show ?thesis
          by (cases r)
             (auto simp add: process_email_try_def Let_def send_def delivered_def logging_def
                split: store_reply.splits)
      qed
    qed
  qed (auto simp add: Some process_email_try_def Let_def send_def logging_def)
qed

lemma process_email_frame:
  "conn_attempts (process_email e d i w) = conn_attempts w
   \<and> dirs (process_email e d i w) = dirs w
   \<and> sleeps (process_email e d i w) = sleeps w
   \<and> today (process_email e d i w) = today w
   \<and> set (log w) \<subseteq> set (log (process_email e d i w))
   \<and> imap_cmds (process_email e d i w) = imap_cmds (snd (process_email_try e d i w))
   \<and> files (process_email e d i w) = files (snd (process_email_try e d i w))
   \<and> seen (process_email e d i w) = seen (snd (process_email_try e d i w))"
  using process_email_try_frame [of e d i w]
  by (cases "process_email_try e d i w")
     (auto simp add: process_email_def logging_def split: option.splits)

lemma process_email_fetches:
  assumes "mail d = Some h"
  shows "filter is_fetch (imap_cmds (process_email e d i w)) =
           filter is_fetch (imap_cmds w) @ [Fetch h i FETCH_PARTS]"
  using process_email_try_frame [of e d i w h] process_email_frame [of e d i w] assms
  by auto

lemma process_all_log:
  "set (log w) \<subseteq> set (log (process_all e d ids w))"
proof (induction ids arbitrary: w)
  case Nil
  show ?case by simp
next
  case (Cons j js)
  from process_email_frame [of e d j w] Cons.IH [of "process_email e d j w"]
  show ?case by auto
qed

text \<open>
  C8. An exception raised while one message is processed (by the fetch, the parsing, the
  extraction or the store that marks it read) is caught in \<open>process_email\<close>, which
  adds one line at level ERROR, naming the message and the exception, to the log and
  returns: \<open>process_email\<close> yields a world, never an exception, and but for that line
  the world is the one in which the exception was raised. So the loop over a batch goes
  on after a message that failed: the line of the failure stays in the log of the
  batch, and every message of the batch is fetched, in the order of the batch, whatever
  happens to the others.
\<close>

theorem message_errors_isolated:
  "(fst (process_email_try e d i w) = Some x \<longrightarrow>
      log (process_email e d i w) =
        log (snd (process_email_try e d i w)) @ [(ERROR, Error_processing i x)]
      \<and> imap_cmds (process_email e d i w) = imap_cmds (snd (process_email_try e d i w))
      \<and> files (process_email e d i w) = files (snd (process_email_try e d i w))
      \<and> seen (process_email e d i w) = seen (snd (process_email_try e d i w))
      \<and> (ERROR, Error_processing i x) \<in> set (log (process_all e d (i # ids) w)))
   \<and> (mail d = Some h \<longrightarrow>
        filter is_fetch (imap_cmds (process_all e d ids w)) =
          filter is_fetch (imap_cmds w) @ map (\<lambda>j. Fetch h j FETCH_PARTS) ids)"
proof -
  have a: "log (process_email e d i w) =
        log (snd (process_email_try e d i w)) @ [(ERROR, Error_processing i x)]
      \<and> imap_cmds (process_email e d i w) = imap_cmds (snd (process_email_try e d i w))
      \<and> files (process_email e d i w) = files (snd (process_email_try e d i w))
      \<and> seen (process_email e d i w) = seen (snd (process_email_try e d i w))
      \<and> (ERROR, Error_processing i x) \<in> set (log (process_all e d (i # ids) w))"
    if t: "fst (process_email_try e d i w) = Some x"
  proof -
    have l: "log (process_email e d i w) =
        log (snd (process_email_try e d i w)) @ [(ERROR, Error_processing i x)]"
      using t by (cases "process_email_try e d i w") (simp add: process_email_def logging_def)
    then have "(ERROR, Error_processing i x) \<in> set (log (process_email e d i w))"
      by simp
    with process_all_log [of "process_email e d i w" e d ids]
    have "(ERROR, Error_processing i x) \<in> set (log (process_all e d (i # ids) w))"
      by auto
    with l process_email_frame [of e d i w] show ?thesis
      by simp
  qed
  have b: "filter is_fetch (imap_cmds (process_all e d ids w)) =
          filter is_fetch (imap_cmds w) @ map (\<lambda>j. Fetch h j FETCH_PARTS) ids"
    if m: "mail d = Some h"
  proof (induction ids arbitrary: w)
    case Nil
    show ?case by simp
  next
    case (Cons j js)
    show ?case
      by (simp add: Cons.IH process_email_fetches [OF m])
  qed
  from a b show ?thesis
    by blast
qed

theorem message_errors_isolated_witness:
  "log (process_email env_first_fails d_ready ''1'' w_dir) =
     [(ERROR, Error_processing ''1'' (IMAP4_abort ''connection reset''))]
   \<and> (ERROR, Error_processing ''1'' (IMAP4_abort ''connection reset''))
       \<in> set (log (process_all env_first_fails d_ready [''1'', ''2''] w_dir))
   \<and> filter is_fetch (imap_cmds (process_all env_first_fails d_ready [''1'', ''2''] w_dir)) =
       [Fetch 0 ''1'' ''(RFC822)'', Fetch 0 ''2'' ''(RFC822)'']"
proof -
  have t: "process_email_try env_first_fails d_ready ''1'' w_dir =
             (Some (IMAP4_abort ''connection reset''), send (Fetch 0 ''1'' FETCH_PARTS) w_dir)"
    by (simp add: process_email_try_def env_first_fails_def d_ready_def Let_def)
  have h1: "fst (process_email_try env_first_fails d_ready ''1'' w_dir) =
              Some (IMAP4_abort ''connection reset'')"
    by (simp add: t)
  have h2: "mail d_ready = Some 0"
    by (simp add: d_ready_def)
  have c: "imap_cmds w_dir = []" "log w_dir = []"
    by (simp_all add: w_dir_def w0_def)
  note i = message_errors_isolated
            [of env_first_fails d_ready "''1''" w_dir "IMAP4_abort ''connection reset''"
                "[''2'']" 0]
  note i2 = message_errors_isolated
            [of env_first_fails d_ready "''1''" w_dir "IMAP4_abort ''connection reset''"
                "[''1'', ''2'']" 0]
  from i h1 have "log (process_email env_first_fails d_ready ''1'' w_dir) =
      log (snd (process_email_try env_first_fails d_ready ''1'' w_dir))
        @ [(ERROR, Error_processing ''1'' (IMAP4_abort ''connection reset''))]"
    and m: "(ERROR, Error_processing ''1'' (IMAP4_abort ''connection reset''))
       \<in> set (log (process_all env_first_fails d_ready [''1'', ''2''] w_dir))"
    by blast+
  then have a: "log (process_email env_first_fails d_ready ''1'' w_dir) =
     [(ERROR, Error_processing ''1'' (IMAP4_abort ''connection reset''))]"
    by (simp add: t send_def c)
  from i2 h2 have "filter is_fetch (imap_cmds (process_all env_first_fails d_ready [''1'', ''2''] w_dir)) =
      filter is_fetch (imap_cmds w_dir) @ map (\<lambda>j. Fetch 0 j FETCH_PARTS) [''1'', ''2'']"
    by blast
  then have b: "filter is_fetch (imap_cmds (process_all env_first_fails d_ready [''1'', ''2''] w_dir)) =
      [Fetch 0 ''1'' ''(RFC822)'', Fetch 0 ''2'' ''(RFC822)'']"
    by (simp add: c FETCH_PARTS_def del: process_all.simps)
  from a m b show ?thesis
    by simp
qed

subsection \<open>Messages of allow-listed senders\<close>












subsection \<open>A run without a connection\<close>

lemma connect_try_frame:
  "base_dir (fst (snd (connect_try e d w))) = base_dir d
   \<and> email_user (fst (snd (connect_try e d w))) = email_user d
   \<and> email_pass (fst (snd (connect_try e d w))) = email_pass d
   \<and> senders_dict (fst (snd (connect_try e d w))) = senders_dict d
   \<and> attachments_dir (fst (snd (connect_try e d w))) = attachments_dir d
   \<and> imap_cmds (snd (snd (connect_try e d w))) = imap_cmds w
   \<and> files (snd (snd (connect_try e d w))) = files w
   \<and> dirs (snd (snd (connect_try e d w))) = dirs w
   \<and> seen (snd (snd (connect_try e d w))) = seen w
   \<and> today (snd (snd (connect_try e d w))) = today w
   \<and> conn_attempts (snd (snd (connect_try e d w))) = Suc (conn_attempts w)"
  by (simp add: connect_try_def Let_def logging_def split: conn_reply.splits)

lemma connect_loop_step:
  assumes "retries < MAX_RETRIES" and "connect_try e d w = (r, d1, w1)"
  shows "connect_loop e retries d w =
     (case r of
        None \<Rightarrow> (None, d1, w1)
      | Some x \<Rightarrow>
          if is_IMAP4_error x then
            connect_loop e (Suc retries) d1
              (if Suc retries < MAX_RETRIES
               then sleep RETRY_DELAY (logging INFO (Retrying_connection RETRY_DELAY)
                      (logging ERROR (Failed_to_connect (Suc retries) MAX_RETRIES x) w1))
               else logging ERROR (Failed_to_connect (Suc retries) MAX_RETRIES x) w1)
          else (Some x, d1, w1))"
  using assms by (subst connect_loop.simps) (simp add: Let_def split: option.splits)

lemma connect_loop_stop:
  assumes "\<not> retries < MAX_RETRIES"
  shows "connect_loop e retries d w =
           (None, d\<lparr>mail := None\<rparr>, logging ERROR (Failed_to_connect_after MAX_RETRIES) w)"
  using assms by (subst connect_loop.simps) simp

lemma connect_loop_frame:
  assumes "MAX_RETRIES - retries = k"
  shows "base_dir (fst (snd (connect_loop e retries d w))) = base_dir d
   \<and> email_user (fst (snd (connect_loop e retries d w))) = email_user d
   \<and> email_pass (fst (snd (connect_loop e retries d w))) = email_pass d
   \<and> senders_dict (fst (snd (connect_loop e retries d w))) = senders_dict d
   \<and> attachments_dir (fst (snd (connect_loop e retries d w))) = attachments_dir d
   \<and> imap_cmds (snd (snd (connect_loop e retries d w))) = imap_cmds w
   \<and> files (snd (snd (connect_loop e retries d w))) = files w
   \<and> dirs (snd (snd (connect_loop e retries d w))) = dirs w
   \<and> seen (snd (snd (connect_loop e retries d w))) = seen w
   \<and> today (snd (snd (connect_loop e retries d w))) = today w
   \<and> (retries < MAX_RETRIES \<longrightarrow>
        conn_attempts w < conn_attempts (snd (snd (connect_loop e retries d w))))
   \<and> conn_attempts w \<le> conn_attempts (snd (snd (connect_loop e retries d w)))"
  using assms
proof (induction k arbitrary: retries d w)
  case 0
  then have "\<not> retries < MAX_RETRIES" by simp
  then show ?case
    by (simp add: connect_loop_stop logging_def)
next
  case (Suc n)
  then have lt: "retries < MAX_RETRIES" by simp
  obtain r d1 w1 where t: "connect_try e d w = (r, d1, w1)"
    by (cases "connect_try e d w")
  from connect_try_frame [of e d w] t
  have f: "base_dir d1 = base_dir d" "email_user d1 = email_user d" "email_pass d1 = email_pass d"
    "senders_dict d1 = senders_dict d" "attachments_dir d1 = attachments_dir d"
    "imap_cmds w1 = imap_cmds w" "files w1 = files w" "dirs w1 = dirs w" "seen w1 = seen w"
    "today w1 = today w" "conn_attempts w1 = Suc (conn_attempts w)"
    by simp_all
  show ?case
  proof (cases r)
    case None
    then show ?thesis
      using lt f by (simp add: connect_loop_step [OF lt t])
  next
    case (Some x)
    show ?thesis
    proof (cases "is_IMAP4_error x")
      case False
      then show ?thesis
        using lt f Some by (simp add: connect_loop_step [OF lt t])
    next
      case True
      define w2 where
        "w2 = (if Suc retries < MAX_RETRIES
               then sleep RETRY_DELAY (logging INFO (Retrying_connection RETRY_DELAY)
                      (logging ERROR (Failed_to_connect (Suc retries) MAX_RETRIES x) w1))
               else logging ERROR (Failed_to_connect (Suc retries) MAX_RETRIES x) w1)"
      have g: "imap_cmds w2 = imap_cmds w" "files w2 = files w" "dirs w2 = dirs w"
        "seen w2 = seen w" "today w2 = today w" "conn_attempts w2 = Suc (conn_attempts w)"
        by (simp_all add: w2_def sleep_def logging_def f)
      have eq: "connect_loop e retries d w = connect_loop e (Suc retries) d1 w2"
        using Some True by (simp add: connect_loop_step [OF lt t] w2_def)
      have "MAX_RETRIES - Suc retries = n"
        using Suc.prems by simp
      from Suc.IH [OF this, of d1 w2] show ?thesis
        by (simp add: eq f g)
    qed
  qed
qed

lemma connect_try_imap_only:
  assumes "connect_raises_imap_only e" and "connect_try e d w = (Some x, d1, w1)"
  shows "is_IMAP4_error x"
proof -
  from assms(1)
  have "case imap_connect e w GMAIL_IMAP_SERVER (email_user d) (email_pass d) of
          Constructor_raises x \<Rightarrow> is_IMAP4_error x
        | Login_raises x \<Rightarrow> is_IMAP4_error x
        | Login_ok \<Rightarrow> True"
    unfolding connect_raises_imap_only_def by blast
  with assms(2) show ?thesis
    by (auto simp add: connect_try_def Let_def split: conn_reply.splits)
qed

lemma connect_loop_no_exn:
  assumes "connect_raises_imap_only e" and "MAX_RETRIES - retries = k"
  shows "fst (connect_loop e retries d w) = None"
  using assms(2)
proof (induction k arbitrary: retries d w)
  case 0
  then have "\<not> retries < MAX_RETRIES" by simp
  then show ?case
    by (simp add: connect_loop_stop)
next
  case (Suc n)
  then have lt: "retries < MAX_RETRIES" by simp
  obtain r d1 w1 where t: "connect_try e d w = (r, d1, w1)"
    by (cases "connect_try e d w")
  show ?case
  proof (cases r)
    case None
    then show ?thesis
      by (simp add: connect_loop_step [OF lt t])
  next
    case (Some x)
    with connect_try_imap_only [OF assms(1)] t have "is_IMAP4_error x"
      by simp
    moreover have "MAX_RETRIES - Suc retries = n"
      using Suc.prems by simp
    ultimately show ?thesis
      using Some Suc.IH by (simp add: connect_loop_step [OF lt t])
  qed
qed

lemma create_dir_frame:
  "mail (fst (create_attachments_directory e d w)) = mail d
   \<and> email_user (fst (create_attachments_directory e d w)) = email_user d
   \<and> imap_cmds (snd (create_attachments_directory e d w)) = imap_cmds w
   \<and> files (snd (create_attachments_directory e d w)) = files w
   \<and> seen (snd (create_attachments_directory e d w)) = seen w
   \<and> today (snd (create_attachments_directory e d w)) = today w
   \<and> conn_attempts (snd (create_attachments_directory e d w)) = conn_attempts w
   \<and> set (log w) \<subseteq> set (log (snd (create_attachments_directory e d w)))"
  by (auto simp add: create_attachments_directory_def Let_def logging_def split: option.splits)

lemma create_dir_dirs:
  "dirs (snd (create_attachments_directory e d w)) =
     (if os_path_join (base_dir d) (today w) \<in> dirs w then dirs w
      else case os_makedirs e w (os_path_join (base_dir d) (today w)) of
             None \<Rightarrow> insert (os_path_join (base_dir d) (today w))
                       (ancestor_dirs (os_path_join (base_dir d) (today w)) \<union> dirs w)
           | Some x \<Rightarrow> dirs w)"
  by (simp add: create_attachments_directory_def Let_def logging_def split: option.splits)

lemma run_account_without_connection:
  assumes "connect e (init (acc_email_user a) (acc_email_pass a) (acc_base_dir a)
             (acc_senders_dict a)) w = (None, d1, w1)"
    and "mail d1 = None"
  shows "fst (run_account e a w) = None
         \<and> imap_cmds (snd (run_account e a w)) = imap_cmds w1
         \<and> files (snd (run_account e a w)) = files w1
         \<and> seen (snd (run_account e a w)) = seen w1
         \<and> dirs (snd (run_account e a w)) = dirs (snd (create_attachments_directory e d1 w1))
         \<and> set (log w1) \<subseteq> set (log (snd (run_account e a w)))"
proof -
  obtain d2 w2 where c: "create_attachments_directory e d1 w1 = (d2, w2)"
    by (cases "create_attachments_directory e d1 w1")
  from create_dir_frame [of e d1 w1] c assms(2)
  have f: "mail d2 = None" "imap_cmds w2 = imap_cmds w1" "files w2 = files w1"
    "seen w2 = seen w1" "set (log w1) \<subseteq> set (log w2)"
    by simp_all
  have r: "run_account e a w =
      (None, if truthy (attachments_dir d2) then logging ERROR Connection_not_established w2
             else w2)"
    by (simp add: run_account_def Let_def assms(1) c download_attachments_def logout_def f(1))
  show ?thesis
    using f by (auto simp add: r c logging_def)
qed

text \<open>
  C1, as the code has it. When every attempt of \<open>connect\<close> fails with an IMAP4
  error, the run of the account logs the failure after 3 attempts and goes on without a
  connection: it returns without raising (there is no outcome value), sends no command
  to the server (no message is fetched or flagged) and writes no file. The directory of
  the day is resolved all the same: one that exists is left as it is, and one that is
  missing is created, with its leading directories, when \<^verbatim>\<open>os.makedirs\<close>
  succeeds.
\<close>

theorem connect_failure_run:
  assumes "\<forall>w'. fails_transiently
             (imap_connect e w' GMAIL_IMAP_SERVER (acc_email_user a) (acc_email_pass a))"
  shows "fst (run_account e a w) = None
         \<and> (ERROR, Failed_to_connect_after 3) \<in> set (log (snd (run_account e a w)))
         \<and> imap_cmds (snd (run_account e a w)) = imap_cmds w
         \<and> seen (snd (run_account e a w)) = seen w
         \<and> files (snd (run_account e a w)) = files w
         \<and> (os_path_join (acc_base_dir a) (today w) \<in> dirs w \<longrightarrow>
              dirs (snd (run_account e a w)) = dirs w)
         \<and> (os_path_join (acc_base_dir a) (today w) \<notin> dirs w
              \<and> (\<forall>w'. os_makedirs e w' (os_path_join (acc_base_dir a) (today w)) = None) \<longrightarrow>
              dirs (snd (run_account e a w)) =
                insert (os_path_join (acc_base_dir a) (today w))
                  (ancestor_dirs (os_path_join (acc_base_dir a) (today w)) \<union> dirs w))"
proof -
  let ?d0 = "init (acc_email_user a) (acc_email_pass a) (acc_base_dir a) (acc_senders_dict a)"
  let ?p = "os_path_join (acc_base_dir a) (today w)"
  obtain r d1 w1 where c: "connect e ?d0 w = (r, d1, w1)"
    by (cases "connect e ?d0 w")
  have u: "email_user ?d0 = acc_email_user a" "email_pass ?d0 = acc_email_pass a"
    "base_dir ?d0 = acc_base_dir a"
    by (simp_all add: init_def)
  have "\<forall>w'. conn_attempts w \<le> conn_attempts w' \<and> conn_attempts w' < conn_attempts w + 3 \<longrightarrow>
          fails_transiently
            (imap_connect e w' GMAIL_IMAP_SERVER (email_user ?d0) (email_pass ?d0))"
    using assms by (simp add: u)
  moreover have "0 + 3 = MAX_RETRIES"
    by (simp add: MAX_RETRIES_def)
  ultimately have "fst (connect_loop e 0 ?d0 w) = None
         \<and> mail (fst (snd (connect_loop e 0 ?d0 w))) = None
         \<and> (ERROR, Failed_to_connect_after MAX_RETRIES)
               \<in> set (log (snd (snd (connect_loop e 0 ?d0 w))))
         \<and> imap_cmds (snd (snd (connect_loop e 0 ?d0 w))) = imap_cmds w
         \<and> files (snd (snd (connect_loop e 0 ?d0 w))) = files w
         \<and> dirs (snd (snd (connect_loop e 0 ?d0 w))) = dirs w
         \<and> seen (snd (snd (connect_loop e 0 ?d0 w))) = seen w
         \<and> today (snd (snd (connect_loop e 0 ?d0 w))) = today w"
    using connect_loop_all_fail [of w 3 e ?d0 0] by simp
  with c have k: "r = None" "mail d1 = None"
    "(ERROR, Failed_to_connect_after 3) \<in> set (log w1)"
    "imap_cmds w1 = imap_cmds w" "files w1 = files w" "dirs w1 = dirs w" "seen w1 = seen w"
    "today w1 = today w"
    by (simp_all add: connect_def MAX_RETRIES_def)
  have b: "base_dir d1 = acc_base_dir a"
    using connect_loop_frame [of 0 3 e ?d0 w] c
    by (simp add: connect_def MAX_RETRIES_def u)
  from c k(1) have c': "connect e ?d0 w = (None, d1, w1)"
    by simp
  note ra = run_account_without_connection [OF c' k(2)]
  have dd: "dirs (snd (create_attachments_directory e d1 w1)) =
     (if ?p \<in> dirs w then dirs w
      else case os_makedirs e w1 ?p of
             None \<Rightarrow> insert ?p (ancestor_dirs ?p \<union> dirs w)
           | Some x \<Rightarrow> dirs w)"
    by (simp add: create_dir_dirs b k split: option.splits)
  have "fst (run_account e a w) = None"
    using ra by simp
  moreover have "(ERROR, Failed_to_connect_after 3) \<in> set (log (snd (run_account e a w)))"
    using ra k(3) by blast
  moreover have "imap_cmds (snd (run_account e a w)) = imap_cmds w"
    "seen (snd (run_account e a w)) = seen w" "files (snd (run_account e a w)) = files w"
    using ra k by simp_all
  moreover have "?p \<in> dirs w \<longrightarrow> dirs (snd (run_account e a w)) = dirs w"
    using ra dd by simp
  moreover have "?p \<notin> dirs w \<and> (\<forall>w'. os_makedirs e w' ?p = None) \<longrightarrow>
      dirs (snd (run_account e a w)) = insert ?p (ancestor_dirs ?p \<union> dirs w)"
    using ra dd by simp
  ultimately show ?thesis
    by blast
qed

theorem connect_failure_run_witness:
  "fst (run_account env_down acc1 w_dir) = None
   \<and> (ERROR, Failed_to_connect_after 3) \<in> set (log (snd (run_account env_down acc1 w_dir)))
   \<and> imap_cmds (snd (run_account env_down acc1 w_dir)) = []
   \<and> seen (snd (run_account env_down acc1 w_dir)) = {}
   \<and> dirs (snd (run_account env_down acc1 w_dir)) = {''base/2024-01-01''}"
proof -
  have h: "\<forall>w'. fails_transiently
             (imap_connect env_down w' GMAIL_IMAP_SERVER (acc_email_user acc1) (acc_email_pass acc1))"
    by (simp add: env_down_def fails_transiently_def)
  have p: "os_path_join (acc_base_dir acc1) (today w_dir) = ''base/2024-01-01''"
    by (simp add: acc1_def w_dir_def w0_def os_path_join_def)
  have c: "imap_cmds w_dir = []" "seen w_dir = {}" "dirs w_dir = {''base/2024-01-01''}"
    by (simp_all add: w_dir_def w0_def)
  from connect_failure_run [OF h, of w_dir] show ?thesis
    unfolding p c by simp
qed

text \<open>C1 as stated fails: after a connect that exhausted its retries the directory of
  the day, absent before, is created.\<close>

theorem connect_failure_creates_dir_counterexample:
  "mail (fst (snd (connect env_down
      (init (acc_email_user acc1) (acc_email_pass acc1) (acc_base_dir acc1)
         (acc_senders_dict acc1)) w0))) = None
   \<and> ''base/2024-01-01'' \<notin> dirs w0
   \<and> ''base/2024-01-01'' \<in> dirs (snd (run_account env_down acc1 w0))
   \<and> (INFO, Created_directory ''base/2024-01-01'') \<in> set (log (snd (run_account env_down acc1 w0)))"
  by (simp add: run_account_def connect_def connect_loop.simps connect_try_def
      create_attachments_directory_def download_attachments_def logout_def truthy_def
      os_path_join_def env_down_def env_ok_def acc1_def init_def w0_def MAX_RETRIES_def
      RETRY_DELAY_def Let_def logging_def sleep_def)

subsection \<open>The loop over the accounts\<close>

lemma process_all_attempts:
  "conn_attempts (process_all e d ids w) = conn_attempts w"
proof (induction ids arbitrary: w)
  case Nil
  show ?case by simp
next
  case (Cons j js)
  from process_email_frame [of e d j w] Cons.IH [of "process_email e d j w"]
  show ?case by simp
qed

lemma download_try_attempts:
  "conn_attempts (snd (download_try e d h w)) = conn_attempts w"
  by (simp add: download_try_def Let_def send_def process_all_attempts
      split: option.splits search_reply.splits)

lemma download_try_imap_only:
  assumes "no_escaping_exception e" and "download_try e d h w = (Some x, w1)"
  shows "is_IMAP4_error x"
  using assms
  by (auto simp add: no_escaping_exception_def download_try_def Let_def
      split: option.splits search_reply.splits)

lemma download_loop_step:
  assumes "retries < MAX_RETRIES" and "download_try e d h w = (r, w1)"
  shows "download_loop e retries d h w =
     (case r of
        None \<Rightarrow> (None, w1)
      | Some x \<Rightarrow>
          if is_IMAP4_error x then
            download_loop e (Suc retries) d h
              (if Suc retries < MAX_RETRIES
               then sleep RETRY_DELAY (logging INFO (Retrying_download RETRY_DELAY)
                      (logging ERROR (Error_while_downloading (Suc retries) MAX_RETRIES x) w1))
               else logging ERROR (Error_while_downloading (Suc retries) MAX_RETRIES x) w1)
          else (Some x, w1))"
  using assms by (subst download_loop.simps) (simp add: Let_def split: option.splits)

lemma download_loop_stop:
  assumes "\<not> retries < MAX_RETRIES"
  shows "download_loop e retries d h w =
           (None, logging ERROR (Failed_to_download_after MAX_RETRIES) w)"
  using assms by (subst download_loop.simps) simp

lemma download_loop_no_exn:
  assumes "no_escaping_exception e" and "MAX_RETRIES - retries = k"
  shows "fst (download_loop e retries d h w) = None
         \<and> conn_attempts (snd (download_loop e retries d h w)) = conn_attempts w"
  using assms(2)
proof (induction k arbitrary: retries w)
  case 0
  then have "\<not> retries < MAX_RETRIES" by simp
  then show ?case
    by (simp add: download_loop_stop logging_def)
next
  case (Suc n)
  then have lt: "retries < MAX_RETRIES" by simp
  obtain r w1 where t: "download_try e d h w = (r, w1)"
    by (cases "download_try e d h w")
  from download_try_attempts [of e d h w] t have c: "conn_attempts w1 = conn_attempts w"
    by simp
  show ?case
  proof (cases r)
    case None
    then show ?thesis
      by (simp add: download_loop_step [OF lt t] c)
  next
    case (Some x)
    with download_try_imap_only [OF assms(1)] t have x: "is_IMAP4_error x"
      by simp
    define w2 where
      "w2 = (if Suc retries < MAX_RETRIES
             then sleep RETRY_DELAY (logging INFO (Retrying_download RETRY_DELAY)
                    (logging ERROR (Error_while_downloading (Suc retries) MAX_RETRIES x) w1))
             else logging ERROR (Error_while_downloading (Suc retries) MAX_RETRIES x) w1)"
    have c2: "conn_attempts w2 = conn_attempts w"
      by (simp add: w2_def sleep_def logging_def c)
    have eq: "download_loop e retries d h w = download_loop e (Suc retries) d h w2"
      using Some x by (simp add: download_loop_step [OF lt t] w2_def)
    have "MAX_RETRIES - Suc retries = n"
      using Suc.prems by simp
    from Suc.IH [OF this, of w2] show ?thesis
      by (simp add: eq c2)
  qed
qed

lemma run_account_no_exn:
  assumes "no_escaping_exception e"
  shows "fst (run_account e a w) = None
         \<and> conn_attempts w < conn_attempts (snd (run_account e a w))"
proof -
  let ?d0 = "init (acc_email_user a) (acc_email_pass a) (acc_base_dir a) (acc_senders_dict a)"
  have ci: "connect_raises_imap_only e"
    using assms by (simp add: no_escaping_exception_def)
  have lo: "imap_logout e w' h = None" for w' h
    using assms by (simp add: no_escaping_exception_def)
  have m: "MAX_RETRIES - 0 = 3"
    by (simp add: MAX_RETRIES_def)
  obtain r d1 w1 where c: "connect e ?d0 w = (r, d1, w1)"
    by (cases "connect e ?d0 w")
  have r: "r = None"
    using connect_loop_no_exn [OF ci m, of ?d0 w] c by (simp add: connect_def)
  have a1: "conn_attempts w < conn_attempts w1"
    using connect_loop_frame [OF m, of e ?d0 w] c by (simp add: connect_def MAX_RETRIES_def)
  obtain d2 w2 where cr: "create_attachments_directory e d1 w1 = (d2, w2)"
    by (cases "create_attachments_directory e d1 w1")
  have a2: "conn_attempts w2 = conn_attempts w1"
    using create_dir_frame [of e d1 w1] cr by simp
  define dl where
    "dl = (if truthy (attachments_dir d2) then download_attachments e d2 w2 else (None, w2))"
  have d: "fst dl = None \<and> conn_attempts (snd dl) = conn_attempts w2"
  proof (cases "mail d2")
    case None
    then show ?thesis
      by (simp add: dl_def download_attachments_def logging_def)
  next
    case (Some h)
    with download_loop_no_exn [OF assms m, of d2 h w2] show ?thesis
      by (simp add: dl_def download_attachments_def)
  qed
  obtain w3 where dl3: "dl = (None, w3)" and a3: "conn_attempts w3 = conn_attempts w2"
    using d by (cases dl) simp
  have l: "fst (logout e d2 w3) = None
           \<and> conn_attempts (snd (logout e d2 w3)) = conn_attempts w3"
    by (simp add: logout_def Let_def lo send_def logging_def split: option.splits)
  have "run_account e a w = logout e d2 w3"
    using dl3 by (simp add: run_account_def Let_def c r cr dl_def)
  with l a1 a2 a3 show ?thesis
    by simp
qed

text \<open>
  C2, as the code has it. \<open>main\<close> runs the accounts in order and itself catches and
  logs nothing. When no exception leaves the run of an account, which is so whenever
  connect, select and search raise IMAP4 errors only and logout raises nothing,
  whatever a fetch, a store, \<^verbatim>\<open>os.makedirs\<close> or a write does, the run returns
  normally and \<open>main\<close> goes on with the next account in the world that this run left:
  every account of the list is run, in order, and \<open>main\<close> returns normally with the
  world that the last run left. An exception that leaves the run of an account leaves
  the loop at once: the accounts after it are not run.
\<close>

theorem accounts_run_in_sequence:
  "(no_escaping_exception e \<longrightarrow>
      fst (run_account e a w) = None
      \<and> main_loop e (a # accounts) w = main_loop e accounts (snd (run_account e a w))
      \<and> main_loop e accounts w = (None, fold (\<lambda>b v. snd (run_account e b v)) accounts w))
   \<and> (fst (run_account e a w) = None \<longrightarrow>
        main_loop e (a # accounts) w = main_loop e accounts (snd (run_account e a w)))
   \<and> (fst (run_account e a w) = Some x \<longrightarrow>
        main_loop e (a # accounts) w = (Some x, snd (run_account e a w)))"
proof -
  have step: "main_loop e (a # accounts) w = main_loop e accounts (snd (run_account e a w))"
    if "fst (run_account e a w) = None"
    using that by (cases "run_account e a w") simp
  have stop: "main_loop e (a # accounts) w = (Some x, snd (run_account e a w))"
    if "fst (run_account e a w) = Some x"
    using that by (cases "run_account e a w") simp
  have all: "main_loop e accounts w = (None, fold (\<lambda>b v. snd (run_account e b v)) accounts w)"
    if ok: "no_escaping_exception e"
  proof (induction accounts arbitrary: w)
    case Nil
    show ?case by simp
  next
    case (Cons b bs)
    obtain w1 where r: "run_account e b w = (None, w1)"
      using run_account_no_exn [OF ok, of b w] by (cases "run_account e b w") simp
    from Cons.IH [of w1] show ?case
      by (simp add: r)
  qed
  have one: "fst (run_account e a w) = None" if ok: "no_escaping_exception e"
    using run_account_no_exn [OF ok, of a w] by simp
  from step stop all one show ?thesis
    by (intro conjI impI) auto
qed

theorem accounts_run_in_sequence_witness:
  "main_loop env_down email_accounts w0 =
     (None, snd (run_account env_down (email_accounts ! 1)
                   (snd (run_account env_down (email_accounts ! 0) w0))))
   \<and> conn_attempts (snd (main_loop env_down email_accounts w0)) = 6
   \<and> main_loop env_first_account_raises (hd email_accounts # tl email_accounts) w0 =
       (Some (Other_exception ''OSError''),
        snd (run_account env_first_account_raises (hd email_accounts) w0))"
proof -
  have h1: "no_escaping_exception env_down"
    by (simp add: no_escaping_exception_def connect_raises_imap_only_def env_down_def env_ok_def)
  have h2: "fst (run_account env_first_account_raises (hd email_accounts) w0) =
              Some (Other_exception ''OSError'')"
    by (simp add: run_account_def connect_def connect_loop.simps connect_try_def
        env_first_account_raises_def email_accounts_def init_def MAX_RETRIES_def Let_def)
  from accounts_run_in_sequence [of env_down "hd email_accounts" w0 email_accounts] h1
  have m: "main_loop env_down email_accounts w0 =
      (None, fold (\<lambda>b v. snd (run_account env_down b v)) email_accounts w0)"
    by blast
  have f: "fold (\<lambda>b v. snd (run_account env_down b v)) email_accounts w0 =
      snd (run_account env_down (email_accounts ! 1)
             (snd (run_account env_down (email_accounts ! 0) w0)))"
    by (simp add: email_accounts_def)
  have three: "conn_attempts (snd (run_account env_down b v)) = conn_attempts v + 3" for b v
    by (simp add: run_account_def connect_def connect_loop.simps connect_try_def
        create_attachments_directory_def download_attachments_def logout_def
        env_down_def env_ok_def init_def MAX_RETRIES_def Let_def logging_def sleep_def
        split: option.splits)
  have v: "conn_attempts (snd (run_account env_down (email_accounts ! 1)
             (snd (run_account env_down (email_accounts ! 0) w0)))) = 6"
    by (simp add: three w0_def)
  from accounts_run_in_sequence
         [of env_first_account_raises "hd email_accounts" w0 "tl email_accounts"
             "Other_exception ''OSError''"] h2
  have b: "main_loop env_first_account_raises (hd email_accounts # tl email_accounts) w0 =
       (Some (Other_exception ''OSError''),
        snd (run_account env_first_account_raises (hd email_accounts) w0))"
    by blast
  from m f v b show ?thesis
    by simp
qed

text \<open>C2 as stated fails: \<open>main\<close> catches nothing. When the constructor of the
  connection of the first account raises an exception that is no IMAP4 error, \<open>main\<close>
  raises it after that one attempt: the second account, whose run alone would go
  through, is never run.\<close>

theorem main_propagates_counterexample:
  "fst (main env_first_account_raises w0) = Some (Other_exception ''OSError'')
   \<and> conn_attempts (snd (main env_first_account_raises w0)) = 1
   \<and> log (snd (main env_first_account_raises w0)) = []
   \<and> fst (run_account env_first_account_raises (email_accounts ! 1) w0) = None
   \<and> conn_attempts (snd (run_account env_first_account_raises (email_accounts ! 1) w0)) = 1"
  by (simp add: main_def email_accounts_def run_account_def connect_def connect_loop.simps
      connect_try_def create_attachments_directory_def download_attachments_def
      download_loop.simps download_try_def logout_def truthy_def os_path_join_def
      env_first_account_raises_def env_ok_def init_def w0_def MAX_RETRIES_def Let_def
      logging_def send_def)

end
